theory Spec2Isabelle
  imports Complex_Main "HOL-Library.Sublist"
begin

section \<open>JavaScript values\<close>

text \<open>
  The handlers receive their arguments as parsed JSON, so a property may hold any JSON value.
  \<open>JUndefined\<close> is what reading a missing property gives. Numbers are modelled as exact
  rationals; only their truthiness (zero or not) is inspected by the handlers.
\<close>

datatype jsval =
    JUndefined
  | JNull
  | JBool bool
  | JNum rat
  | JStr string
  | JArr "jsval list"
  | JObj "(string \<times> jsval) list"

datatype error = TypeError | RangeError | Error string

text \<open>
  The message carried by a thrown value (\<open>err.message\<close>). For the errors the runtime
  throws itself the text is the runtime's; its name stands for it here.
\<close>

fun message :: "error \<Rightarrow> string" where
  "message (Error m) = m"
| "message TypeError = ''TypeError''"
| "message RangeError = ''RangeError''"

text \<open>JavaScript truthiness: \<open>undefined\<close>, \<open>null\<close>, \<open>false\<close>, \<open>0\<close> and the empty string are falsy.\<close>

fun truthy :: "jsval \<Rightarrow> bool" where
  "truthy JUndefined = False"
| "truthy JNull = False"
| "truthy (JBool b) = b"
| "truthy (JNum n) = (n \<noteq> 0)"
| "truthy (JStr s) = (s \<noteq> [])"
| "truthy (JArr xs) = True"
| "truthy (JObj kvs) = True"

fun nullish :: "jsval \<Rightarrow> bool" where
  "nullish JUndefined = True"
| "nullish JNull = True"
| "nullish v = False"

text \<open>
  \<open>jfield kvs k\<close> reads an own property of an object. \<open>jprop v k\<close> is the property read
  \<open>v.k\<close> on a value known not to be \<open>null\<close>/\<open>undefined\<close>: none of the property names the
  handlers read exists on the prototypes of primitives or arrays. \<open>jmember v k\<close> is the
  unguarded read, which throws a TypeError on \<open>null\<close> and \<open>undefined\<close>.
\<close>

definition jfield :: "(string \<times> jsval) list \<Rightarrow> string \<Rightarrow> jsval" where
  "jfield kvs k = (case map_of kvs k of None \<Rightarrow> JUndefined | Some v \<Rightarrow> v)"

fun jprop :: "jsval \<Rightarrow> string \<Rightarrow> jsval" where
  "jprop (JObj kvs) k = jfield kvs k"
| "jprop v k = JUndefined"

definition jmember :: "jsval \<Rightarrow> string \<Rightarrow> error + jsval" where
  "jmember v k = (if nullish v then Inl TypeError else Inr (jprop v k))"

text \<open>\<open>a || b\<close> and \<open>a && b\<close> on already evaluated operands.\<close>

definition js_or :: "jsval \<Rightarrow> jsval \<Rightarrow> jsval" where
  "js_or a b = (if truthy a then a else b)"

definition js_and :: "jsval \<Rightarrow> jsval \<Rightarrow> jsval" where
  "js_and a b = (if truthy a then b else a)"

text \<open>
  Library functions of the runtime that the handlers call but that are not part of the
  repository. They are parameters of the model; \<open>None\<close> means the call throws.
\<close>

record builtins =
  b64_utf8 :: "jsval \<Rightarrow> string option"
    \<comment> \<open>\<open>Buffer.from(v, "base64").toString("utf8")\<close>\<close>
  json_parse :: "string \<Rightarrow> jsval option"
    \<comment> \<open>\<open>JSON.parse\<close>\<close>
  json_stringify :: "jsval \<Rightarrow> string"
    \<comment> \<open>\<open>JSON.stringify\<close>\<close>
  iso_date :: "jsval \<Rightarrow> string option"
    \<comment> \<open>\<open>new Date(v * 1000).toISOString().split('T')[0]\<close>\<close>
  div100 :: "jsval \<Rightarrow> jsval option"
    \<comment> \<open>\<open>v / 100\<close>\<close>
  to_fixed2 :: "jsval \<Rightarrow> string"
    \<comment> \<open>\<open>n.toFixed(2)\<close> on a number\<close>
  to_str :: "jsval \<Rightarrow> string option"
    \<comment> \<open>the string conversion of a template literal\<close>

section \<open>The external store\<close>

text \<open>
  A page of the Notion database: its identifier and its typed properties. The constructors
  of \<open>propval\<close> are the property types the handlers write and filter on.
\<close>

datatype propval =
    Title jsval
  | EmailP jsval
  | DateP jsval
  | RichText jsval
  | SelectP jsval
  | UrlP jsval
  | NumberP jsval

record page =
  pid :: string
  props :: "string \<Rightarrow> propval option"

text \<open>
  The three calls the handlers make: a database query with a conjunction of equality
  filters, a page patch and a page creation, each carrying the properties of its body.
\<close>

datatype request =
    Query "(string \<times> propval) list"
  | Patch string "(string \<times> propval) list"
  | Create "(string \<times> propval) list"

text \<open>
  What comes back: the call is carried out (\<open>resp.ok\<close>), answered with an error status
  and a JSON body, or \<open>fetch\<close> itself rejects with a message.
\<close>

datatype reply = Accepted | Rejected jsval | Unreachable string

text \<open>
  The world a handler runs in: the pages of the database, how the store answers each
  request, the identifier it assigns to the next created page, the requests sent so far
  and the lines written with \<open>console.error\<close>.
\<close>

record world =
  pages :: "page list"
  verdict :: "request \<Rightarrow> reply"
  new_id :: string
  trace :: "request list"
  console :: "string list"

definition sent :: "request \<Rightarrow> world \<Rightarrow> world" where
  "sent r w = w\<lparr>trace := trace w @ [r]\<rparr>"

definition logged :: "string \<Rightarrow> world \<Rightarrow> world" where
  "logged l w = w\<lparr>console := console w @ [l]\<rparr>"

definition satisfies :: "(string \<times> propval) list \<Rightarrow> page \<Rightarrow> bool" where
  "satisfies conds p = list_all (\<lambda>(k, v). props p k = Some v) conds"

definition run_query :: "(string \<times> propval) list \<Rightarrow> world \<Rightarrow> page list" where
  "run_query conds w = filter (satisfies conds) (pages w)"

definition apply_patch :: "string \<Rightarrow> (string \<times> propval) list \<Rightarrow> page \<Rightarrow> page" where
  "apply_patch i ps p = (if pid p = i then p\<lparr>props := props p ++ map_of ps\<rparr> else p)"

definition run_patch :: "string \<Rightarrow> (string \<times> propval) list \<Rightarrow> world \<Rightarrow> world" where
  "run_patch i ps w = w\<lparr>pages := map (apply_patch i ps) (pages w)\<rparr>"

definition run_create :: "(string \<times> propval) list \<Rightarrow> world \<Rightarrow> world" where
  "run_create ps w = w\<lparr>pages := pages w @ [\<lparr>pid = new_id w, props = map_of ps\<rparr>]\<rparr>"

section \<open>Strings and patterns\<close>

text \<open>
  A \<open>char\<close> stands for a code unit below 256. Of the characters that \<open>\s\<close> and
  \<open>trim\<close> treat as white space these are tab, line feed, vertical tab, form feed,
  carriage return, space and the no-break space.
\<close>

definition js_space :: "char \<Rightarrow> bool" where
  "js_space c = (c \<in> {CHR 0x09, CHR 0x0A, CHR 0x0B, CHR 0x0C, CHR 0x0D, CHR 0x20, CHR 0xA0})"

definition trim :: "string \<Rightarrow> string" where
  "trim s = rev (dropWhile js_space (rev (dropWhile js_space s)))"

text \<open>
  The two regular expressions of the validator are anchored sequences of single
  characters and \<open>+\<close>-repetitions of a character class.
\<close>

datatype cclass = Lit char | Digit | NoSpaceNoAt

fun in_class :: "cclass \<Rightarrow> char \<Rightarrow> bool" where
  "in_class (Lit a) c = (c = a)"
| "in_class Digit c = (c \<in> set ''0123456789'')"
| "in_class NoSpaceNoAt c = (\<not> js_space c \<and> c \<noteq> CHR ''@'')"

datatype item = One cclass | Many1 cclass

fun matches :: "item list \<Rightarrow> string \<Rightarrow> bool" where
  "matches [] s = (s = [])"
| "matches (One k # r) [] = False"
| "matches (One k # r) (c # cs) = (in_class k c \<and> matches r cs)"
| "matches (Many1 k # r) [] = False"
| "matches (Many1 k # r) (c # cs) =
     (in_class k c \<and> (matches (Many1 k # r) cs \<or> matches r cs))"

text \<open>\<open>/^[^\s@]+@[^\s@]+\.[^\s@]+$/\<close>\<close>

definition email_pattern :: "item list" where
  "email_pattern =
     [Many1 NoSpaceNoAt, One (Lit CHR ''@''), Many1 NoSpaceNoAt, One (Lit CHR ''.''),
      Many1 NoSpaceNoAt]"

text \<open>\<open>/^\d{4}-\d{2}-\d{2}$/\<close>\<close>

definition date_pattern :: "item list" where
  "date_pattern =
     [One Digit, One Digit, One Digit, One Digit, One (Lit CHR ''-''),
      One Digit, One Digit, One (Lit CHR ''-''), One Digit, One Digit]"

text \<open>\<open>validEmail(v)\<close>, called on a string: \<open>v || ""\<close> is then \<open>v\<close> itself.\<close>

definition validEmail :: "string \<Rightarrow> bool" where
  "validEmail v = matches email_pattern (trim v)"

section \<open>HTTP responses\<close>

text \<open>The body is the value handed to \<open>JSON.stringify\<close>; \<open>None\<close> when the response has none.\<close>

record response =
  statusCode :: nat
  headers :: "(string \<times> string) list"
  body :: "jsval option"

section \<open>Availability gate\<close>

record availability =
  isAvailable :: bool
  spotsLeft :: int
  paidCount :: nat

definition gate_filter :: "jsval \<Rightarrow> jsval \<Rightarrow> (string \<times> propval) list" where
  "gate_filter cohort startDate =
     [(''cohort'', RichText cohort), (''status'', SelectP (JStr ''paid''))]
     @ (if truthy startDate then [(''start_date'', DateP startDate)] else [])"

text \<open>
  \<open>checkCohortAvailability(cohort, startDate = null)\<close>: the default replaces an
  \<open>undefined\<close> argument only, and both are falsy in the test that follows.
\<close>

definition checkCohortAvailability ::
  "builtins \<Rightarrow> jsval \<Rightarrow> jsval \<Rightarrow> world \<Rightarrow> (error + availability) \<times> world" where
  "checkCohortAvailability bi cohort startDate w =
     (let q = gate_filter cohort (if startDate = JUndefined then JNull else startDate);
          w' = sent (Query q) w
      in case verdict w (Query q) of
           Unreachable m \<Rightarrow> (Inl (Error (''Failed to check availability: '' @ m)), w')
         | Rejected j \<Rightarrow>
             (Inl (Error (''Failed to check availability: '' @ ''Notion API error: ''
                          @ json_stringify bi j)), w')
         | Accepted \<Rightarrow>
             (let paidCount = length (run_query q w)
              in (Inr \<lparr>isAvailable = paidCount < 10,
                       spotsLeft = max 0 (10 - int paidCount),
                       paidCount = paidCount\<rparr>, w')))"

section \<open>Registration handler\<close>

text \<open>
  \<open>parseBody(args)\<close>: the decoded JSON body of a post request, \<open>{}\<close> when decoding or
  parsing throws, and the arguments themselves otherwise.
\<close>

definition parseBody :: "builtins \<Rightarrow> (string \<times> jsval) list \<Rightarrow> jsval" where
  "parseBody bi args =
     (if jfield args ''__ow_method'' = JStr ''post'' \<and> truthy (jfield args ''__ow_body'')
      then (case b64_utf8 bi (jfield args ''__ow_body'') of
              None \<Rightarrow> JObj []
            | Some raw \<Rightarrow>
                (case json_parse bi (if raw = [] then ''{}'' else raw) of
                   None \<Rightarrow> JObj []
                 | Some v \<Rightarrow> v))
      else JObj args)"

text \<open>
  \<open>(v || dflt).trim()\<close>: a truthy value that is not a string has no \<open>trim\<close> method, and the
  call throws a TypeError.
\<close>

definition trimmed :: "jsval \<Rightarrow> string \<Rightarrow> error + string" where
  "trimmed v dflt =
     (case js_or v (JStr dflt) of JStr s \<Rightarrow> Inr (trim s) | _ \<Rightarrow> Inl TypeError)"

record registration =
  name :: string
  email :: string
  start_date :: string
  cohort :: string
  goal :: string

definition normalize :: "jsval \<Rightarrow> error + registration" where
  "normalize data =
     (case trimmed (jprop data ''name'') [] of Inl e \<Rightarrow> Inl e | Inr n \<Rightarrow>
     (case trimmed (jprop data ''email'') [] of Inl e \<Rightarrow> Inl e | Inr m \<Rightarrow>
     (case trimmed (jprop data ''start_date'') [] of Inl e \<Rightarrow> Inl e | Inr d \<Rightarrow>
     (case trimmed (jprop data ''cohort'') ''unknown'' of Inl e \<Rightarrow> Inl e | Inr c \<Rightarrow>
     (case trimmed (jprop data ''goal'') ''unknown'' of Inl e \<Rightarrow> Inl e | Inr g \<Rightarrow>
        Inr \<lparr>name = n, email = m, start_date = d, cohort = c, goal = g\<rparr>)))))"

text \<open>The validator: three independent checks, each pushing its message.\<close>

definition validate :: "string \<Rightarrow> string \<Rightarrow> string \<Rightarrow> string list" where
  "validate n m d =
     (if n = [] then [''name is required''] else [])
     @ (if \<not> validEmail m then [''valid email is required''] else [])
     @ (if \<not> matches date_pattern d then [''start_date must be ISO yyyy-mm-dd''] else [])"

definition json_headers :: "(string \<times> string) list" where
  "json_headers = [(''Content-Type'', ''application/json'')]"

definition find_filter :: "string \<Rightarrow> string \<Rightarrow> string \<Rightarrow> (string \<times> propval) list" where
  "find_filter m c d =
     [(''email'', EmailP (JStr m)), (''cohort'', RichText (JStr c)),
      (''start_date'', DateP (JStr d))]"

definition findExistingRecord ::
  "builtins \<Rightarrow> string \<Rightarrow> string \<Rightarrow> string \<Rightarrow> world \<Rightarrow> (error + page option) \<times> world" where
  "findExistingRecord bi m c d w =
     (let q = find_filter m c d; w' = sent (Query q) w
      in case verdict w (Query q) of
           Unreachable t \<Rightarrow> (Inl (Error (''Failed to find existing record: '' @ t)), w')
         | Rejected j \<Rightarrow>
             (Inl (Error (''Failed to find existing record: '' @ ''Notion API error: ''
                          @ json_stringify bi j)), w')
         | Accepted \<Rightarrow>
             (case run_query q w of [] \<Rightarrow> (Inr None, w') | p # _ \<Rightarrow> (Inr (Some p), w')))"

definition goal_patch :: "string \<Rightarrow> (string \<times> propval) list" where
  "goal_patch g = [(''expectation'', RichText (JStr g))]"

definition updateExistingRecord ::
  "builtins \<Rightarrow> string \<Rightarrow> string \<Rightarrow> world \<Rightarrow> (error + unit) \<times> world" where
  "updateExistingRecord bi pageId g w =
     (let r = Patch pageId (goal_patch g); w' = sent r w
      in case verdict w r of
           Unreachable t \<Rightarrow> (Inl (Error (''Failed to update existing record: '' @ t)), w')
         | Rejected j \<Rightarrow>
             (Inl (Error (''Failed to update existing record: '' @ ''Notion API error: ''
                          @ json_stringify bi j)), w')
         | Accepted \<Rightarrow> (Inr (), run_patch pageId (goal_patch g) w'))"

text \<open>The properties of a new page.\<close>

definition payload :: "registration \<Rightarrow> (string \<times> propval) list" where
  "payload r =
     [(''name'', Title (JStr (name r))),
      (''email'', EmailP (JStr (email r))),
      (''start_date'', DateP (JStr (start_date r))),
      (''cohort'', RichText (JStr (cohort r))),
      (''expectation'', RichText (JStr (goal r))),
      (''status'', SelectP (JStr ''registered''))]"

text \<open>The last step of the handler: create the page and report.\<close>

definition create_page :: "registration \<Rightarrow> world \<Rightarrow> response \<times> world" where
  "create_page r w =
     (let req = Create (payload r); w' = sent req w
      in case verdict w req of
           Unreachable t \<Rightarrow>
             (\<lparr>statusCode = 500, headers = json_headers,
               body = Some (JObj [(''ok'', JBool False), (''error'', JStr t)])\<rparr>, w')
         | Rejected j \<Rightarrow>
             (\<lparr>statusCode = 502, headers = json_headers,
               body = Some (JObj [(''ok'', JBool False), (''error'', j)])\<rparr>, w')
         | Accepted \<Rightarrow>
             (\<lparr>statusCode = 200, headers = json_headers,
               body = Some (JObj [(''ok'', JBool True), (''pageId'', JStr (new_id w)),
                                  (''created'', JBool True),
                                  (''message'', JStr ''Created new registration'')])\<rparr>,
              run_create (payload r) w'))"

text \<open>
  The lookup of an existing record and its update share one \<open>try\<close>: when either throws,
  the handler logs and goes on to create a page.
\<close>

definition upsert :: "builtins \<Rightarrow> registration \<Rightarrow> world \<Rightarrow> response \<times> world" where
  "upsert bi r w =
     (case findExistingRecord bi (email r) (cohort r) (start_date r) w of
        (Inl err, w1) \<Rightarrow>
          create_page r (logged (''Failed to check/update existing record: '' @ message err) w1)
      | (Inr None, w1) \<Rightarrow> create_page r w1
      | (Inr (Some p), w1) \<Rightarrow>
          (case updateExistingRecord bi (pid p) (goal r) w1 of
             (Inl err, w2) \<Rightarrow>
               create_page r
                 (logged (''Failed to check/update existing record: '' @ message err) w2)
           | (Inr u, w2) \<Rightarrow>
               (\<lparr>statusCode = 200, headers = json_headers,
                 body = Some (JObj [(''ok'', JBool True), (''pageId'', JStr (pid p)),
                                    (''updated'', JBool True),
                                    (''message'', JStr ''Updated existing registration'')])\<rparr>,
                w2)))"

text \<open>Validation and what follows it.\<close>

definition validated_upsert :: "builtins \<Rightarrow> registration \<Rightarrow> world \<Rightarrow> response \<times> world" where
  "validated_upsert bi r w =
     (let errors = validate (name r) (email r) (start_date r)
      in if errors \<noteq> []
         then (\<lparr>statusCode = 400, headers = json_headers,
                body = Some (JObj [(''ok'', JBool False),
                                   (''errors'', JArr (map JStr errors))])\<rparr>, w)
         else upsert bi r w)"

text \<open>The registration flow, from the availability check on.\<close>

definition register :: "builtins \<Rightarrow> registration \<Rightarrow> world \<Rightarrow> response \<times> world" where
  "register bi r w =
     (case checkCohortAvailability bi (JStr (cohort r)) (JStr (start_date r)) w of
        (Inr a, w1) \<Rightarrow>
          if \<not> isAvailable a
          then (\<lparr>statusCode = 409, headers = json_headers,
                 body = Some (JObj [(''ok'', JBool False), (''error'', JStr ''Cohort is full''),
                                    (''cohort'', JStr (cohort r)),
                                    (''startDate'', JStr (start_date r)),
                                    (''spotsLeft'', JNum 0)])\<rparr>, w1)
          else validated_upsert bi r w1
      | (Inl err, w1) \<Rightarrow>
          validated_upsert bi r (logged (''Availability check failed: '' @ message err) w1))"

text \<open>The availability-check endpoint.\<close>

definition check_endpoint :: "builtins \<Rightarrow> jsval \<Rightarrow> jsval \<Rightarrow> world \<Rightarrow> response \<times> world" where
  "check_endpoint bi checkAvail checkDate w =
     (case checkCohortAvailability bi checkAvail checkDate w of
        (Inr a, w1) \<Rightarrow>
          (\<lparr>statusCode = 200, headers = json_headers,
            body = Some (JObj [(''ok'', JBool True), (''cohort'', checkAvail),
                               (''startDate'', checkDate),
                               (''isAvailable'', JBool (isAvailable a)),
                               (''spotsLeft'', JNum (of_int (spotsLeft a))),
                               (''paidCount'', JNum (of_nat (paidCount a)))])\<rparr>, w1)
      | (Inl err, w1) \<Rightarrow>
          (\<lparr>statusCode = 500, headers = json_headers,
            body = Some (JObj [(''ok'', JBool False), (''error'', JStr (message err))])\<rparr>, w1))"

text \<open>
  \<open>exports.main\<close> of the registration handler. Reading a property of a body that parsed
  to \<open>null\<close>, or trimming a field that is not a string, throws out of the handler.
\<close>

definition register_main ::
  "builtins \<Rightarrow> (string \<times> jsval) list \<Rightarrow> world \<Rightarrow> (error + response) \<times> world" where
  "register_main bi args w =
     (if jfield args ''__ow_method'' = JStr ''options''
      then (Inr \<lparr>statusCode = 204, headers = [], body = None\<rparr>, w)
      else
        let data = parseBody bi args
        in if nullish data then (Inl TypeError, w)
           else
             let checkAvail = js_or (jprop data ''check-avail'') (jprop data ''checkAvail'');
                 checkDate = js_or (jprop data ''check-date'') (jprop data ''checkDate'')
             in if truthy checkAvail
                then (case check_endpoint bi checkAvail checkDate w of
                        (resp, w') \<Rightarrow> (Inr resp, w'))
                else (case normalize data of
                        Inl e \<Rightarrow> (Inl e, w)
                      | Inr r \<Rightarrow> (case register bi r w of (resp, w') \<Rightarrow> (Inr resp, w'))))"

section \<open>The registration handlers without the gate\<close>

text \<open>
  Two earlier variants of the registration handler validate and create a page; they
  neither check availability nor look for an existing record. Both answer with the
  cross-origin headers below.
\<close>

definition corsHeaders :: "(string \<times> string) list" where
  "corsHeaders =
     [(''Access-Control-Allow-Origin'', ''*''),
      (''Access-Control-Allow-Methods'', ''GET,POST,OPTIONS''),
      (''Access-Control-Allow-Headers'', ''Content-Type, Authorization'')]"

text \<open>Their last step: create the page and report its identifier.\<close>

definition create_and_report :: "(string \<times> propval) list \<Rightarrow> world \<Rightarrow> response \<times> world" where
  "create_and_report ps w =
     (let req = Create ps; w' = sent req w
      in case verdict w req of
           Unreachable t \<Rightarrow>
             (\<lparr>statusCode = 500, headers = (''Content-Type'', ''application/json'') # corsHeaders,
               body = Some (JObj [(''ok'', JBool False), (''error'', JStr t)])\<rparr>, w')
         | Rejected j \<Rightarrow>
             (\<lparr>statusCode = 502, headers = (''Content-Type'', ''application/json'') # corsHeaders,
               body = Some (JObj [(''ok'', JBool False), (''error'', j)])\<rparr>, w')
         | Accepted \<Rightarrow>
             (\<lparr>statusCode = 200, headers = (''Content-Type'', ''application/json'') # corsHeaders,
               body = Some (JObj [(''ok'', JBool True), (''pageId'', JStr (new_id w))])\<rparr>,
              run_create ps w'))"

text \<open>Their answer to invalid fields.\<close>

definition invalid :: "string list \<Rightarrow> response" where
  "invalid errors =
     \<lparr>statusCode = 400, headers = (''Content-Type'', ''application/json'') # corsHeaders,
      body = Some (JObj [(''ok'', JBool False), (''errors'', JArr (map JStr errors))])\<rparr>"

text \<open>\<open>exports.main\<close> of the variant that writes the same properties as the full handler.\<close>

definition simple_register_main ::
  "builtins \<Rightarrow> (string \<times> jsval) list \<Rightarrow> world \<Rightarrow> (error + response) \<times> world" where
  "simple_register_main bi args w =
     (if jfield args ''__ow_method'' = JStr ''options''
      then (Inr \<lparr>statusCode = 204, headers = corsHeaders, body = None\<rparr>, w)
      else
        let data = parseBody bi args
        in if nullish data then (Inl TypeError, w)
           else (case normalize data of
                   Inl e \<Rightarrow> (Inl e, w)
                 | Inr r \<Rightarrow>
                     let errors = validate (name r) (email r) (start_date r)
                     in if errors \<noteq> [] then (Inr (invalid errors), w)
                        else (case create_and_report (payload r) w of
                                (resp, w') \<Rightarrow> (Inr resp, w'))))"

text \<open>
  The oldest variant reads a \<open>class_date\<close> and writes the properties \<open>Name\<close>, \<open>Email\<close>,
  \<open>Class Date\<close> and \<open>Cohort\<close>; it writes no status.
\<close>

definition class_payload :: "string \<Rightarrow> string \<Rightarrow> string \<Rightarrow> string \<Rightarrow> (string \<times> propval) list" where
  "class_payload n m d c =
     [(''Name'', Title (JStr n)), (''Email'', EmailP (JStr m)),
      (''Class Date'', DateP (JStr d)), (''Cohort'', SelectP (JStr c))]"

definition validate_class :: "string \<Rightarrow> string \<Rightarrow> string \<Rightarrow> string list" where
  "validate_class n m d =
     (if n = [] then [''name is required''] else [])
     @ (if \<not> validEmail m then [''valid email is required''] else [])
     @ (if \<not> matches date_pattern d then [''class_date must be ISO yyyy-mm-dd''] else [])"

definition class_register_main ::
  "builtins \<Rightarrow> (string \<times> jsval) list \<Rightarrow> world \<Rightarrow> (error + response) \<times> world" where
  "class_register_main bi args w =
     (if jfield args ''__ow_method'' = JStr ''options''
      then (Inr \<lparr>statusCode = 204, headers = corsHeaders, body = None\<rparr>, w)
      else
        let data = parseBody bi args
        in if nullish data then (Inl TypeError, w)
           else (case trimmed (jprop data ''name'') [] of Inl e \<Rightarrow> (Inl e, w) | Inr n \<Rightarrow>
                (case trimmed (jprop data ''email'') [] of Inl e \<Rightarrow> (Inl e, w) | Inr m \<Rightarrow>
                (case trimmed (jprop data ''class_date'') [] of Inl e \<Rightarrow> (Inl e, w) | Inr d \<Rightarrow>
                (case trimmed (jprop data ''cohort'') ''unknown'' of Inl e \<Rightarrow> (Inl e, w) | Inr c \<Rightarrow>
                   let errors = validate_class n m d
                   in if errors \<noteq> [] then (Inr (invalid errors), w)
                      else (case create_and_report (class_payload n m d c) w of
                              (resp, w') \<Rightarrow> (Inr resp, w')))))))"

section \<open>Payment webhook\<close>

definition cors :: "(string \<times> string) list" where
  "cors =
     [(''Access-Control-Allow-Origin'', ''*''),
      (''Access-Control-Allow-Methods'', ''POST,OPTIONS''),
      (''Access-Control-Allow-Headers'', ''Content-Type'')]"

definition bad :: "nat \<Rightarrow> (string \<times> jsval) list \<Rightarrow> response" where
  "bad status b =
     \<lparr>statusCode = status, headers = (''Content-Type'', ''application/json'') # cors,
      body = Some (JObj ((''ok'', JBool False) # b))\<rparr>"

definition ok :: "(string \<times> jsval) list \<Rightarrow> response" where
  "ok b =
     \<lparr>statusCode = 200, headers = (''Content-Type'', ''application/json'') # cors,
      body = Some (JObj ((''ok'', JBool True) # b))\<rparr>"

text \<open>\<open>parseEvent(args)\<close>: the parsed body, the arguments of a console test, or \<open>null\<close>.\<close>

definition parseEvent :: "builtins \<Rightarrow> (string \<times> jsval) list \<Rightarrow> jsval" where
  "parseEvent bi args =
     (if truthy (jfield args ''__ow_body'')
      then (case b64_utf8 bi (jfield args ''__ow_body'') of
              None \<Rightarrow> JNull
            | Some raw \<Rightarrow> (case json_parse bi raw of None \<Rightarrow> JNull | Some v \<Rightarrow> v))
      else if truthy (js_and (jfield args ''type'') (jfield args ''data'')) then JObj args
      else JNull)"

text \<open>\<open>event.data && event.data.object\<close>\<close>

definition session_of :: "jsval \<Rightarrow> jsval" where
  "session_of event = js_and (jprop event ''data'') (jprop (jprop event ''data'') ''object'')"

text \<open>\<open>session && session.payment_status === "paid"\<close>\<close>

definition paid_of :: "jsval \<Rightarrow> jsval" where
  "paid_of session = js_and session (JBool (jprop session ''payment_status'' = JStr ''paid''))"

text \<open>
  \<open>(session && session.customer_details && session.customer_details.email) ||
  session.customer_email || null\<close>: the second operand reads a property of the session
  without a guard.
\<close>

definition email_of :: "jsval \<Rightarrow> error + jsval" where
  "email_of session =
     (let a = js_and session
                (js_and (jprop session ''customer_details'')
                   (jprop (jprop session ''customer_details'') ''email''))
      in if truthy a then Inr a
         else (case jmember session ''customer_email'' of
                 Inl e \<Rightarrow> Inl e
               | Inr b \<Rightarrow> Inr (js_or b JNull)))"

definition email_filter :: "jsval \<Rightarrow> (string \<times> propval) list" where
  "email_filter m = [(''email'', EmailP m)]"

definition findPagesByEmail ::
  "builtins \<Rightarrow> jsval \<Rightarrow> world \<Rightarrow> (error + page list) \<times> world" where
  "findPagesByEmail bi m w =
     (let q = email_filter m; w' = sent (Query q) w
      in case verdict w (Query q) of
           Unreachable t \<Rightarrow> (Inl (Error t), w')
         | Rejected j \<Rightarrow> (Inl (Error (''Notion query failed: '' @ json_stringify bi j)), w')
         | Accepted \<Rightarrow> (Inr (run_query q w), w'))"

text \<open>Sending a patch, as both \<open>markPaid\<close> and \<open>markPaidWithStripeInfo\<close> do.\<close>

definition send_patch ::
  "builtins \<Rightarrow> string \<Rightarrow> (string \<times> propval) list \<Rightarrow> world \<Rightarrow> (error + unit) \<times> world" where
  "send_patch bi pageId ps w =
     (let w' = sent (Patch pageId ps) w
      in case verdict w (Patch pageId ps) of
           Unreachable t \<Rightarrow> (Inl (Error t), w')
         | Rejected j \<Rightarrow> (Inl (Error (''Notion update failed: '' @ json_stringify bi j)), w')
         | Accepted \<Rightarrow> (Inr (), run_patch pageId ps w'))"

subsection \<open>The minimal processor\<close>

definition paid_patch :: "(string \<times> propval) list" where
  "paid_patch = [(''status'', SelectP (JStr ''paid''))]"

definition markPaid :: "builtins \<Rightarrow> string \<Rightarrow> world \<Rightarrow> (error + unit) \<times> world" where
  "markPaid bi pageId w = send_patch bi pageId paid_patch w"

text \<open>\<open>for (const p of pages) { await markPaid(p.id); updated++; }\<close>\<close>

fun mark_all :: "builtins \<Rightarrow> page list \<Rightarrow> nat \<Rightarrow> world \<Rightarrow> (error + nat) \<times> world" where
  "mark_all bi [] updated w = (Inr updated, w)"
| "mark_all bi (p # ps) updated w =
     (case markPaid bi (pid p) w of
        (Inl e, w') \<Rightarrow> (Inl e, w')
      | (Inr u, w') \<Rightarrow> mark_all bi ps (updated + 1) w')"

text \<open>The \<open>try\<close> block of the minimal processor.\<close>

definition settle :: "builtins \<Rightarrow> jsval \<Rightarrow> world \<Rightarrow> response \<times> world" where
  "settle bi m w =
     (case findPagesByEmail bi m w of
        (Inl err, w1) \<Rightarrow> (bad 502 [(''error'', JStr (message err))], w1)
      | (Inr ps, w1) \<Rightarrow>
          if ps = []
          then (ok [(''updated'', JNum 0), (''note'', JStr ''no_matching_email''),
                    (''email'', m)], w1)
          else (case mark_all bi ps 0 w1 of
                  (Inl err, w2) \<Rightarrow> (bad 502 [(''error'', JStr (message err))], w2)
                | (Inr updated, w2) \<Rightarrow>
                    (ok [(''updated'', JNum (of_nat updated)), (''email'', m)], w2)))"

definition webhook_main ::
  "builtins \<Rightarrow> (string \<times> jsval) list \<Rightarrow> world \<Rightarrow> (error + response) \<times> world" where
  "webhook_main bi args w =
     (if jfield args ''__ow_method'' = JStr ''options''
      then (Inr \<lparr>statusCode = 204, headers = cors, body = None\<rparr>, w)
      else if jfield args ''__ow_method'' \<noteq> JStr ''post''
      then (Inr (bad 405 [(''error'', JStr ''Method not allowed'')]), w)
      else
        let event = parseEvent bi args
        in if \<not> truthy event
           then (Inr (bad 400 [(''error'', JStr ''Empty or invalid body'')]), w)
           else if jprop event ''type'' \<noteq> JStr ''checkout.session.completed''
           then (Inr (ok [(''ignored'', JBool True),
                          (''reason'', JStr ''unhandled_event_type'')]), w)
           else
             let session = session_of event; paid = paid_of session
             in (case email_of session of
                   Inl e \<Rightarrow> (Inl e, w)
                 | Inr m \<Rightarrow>
                     if \<not> truthy paid
                     then (Inr (ok [(''ignored'', JBool True), (''reason'', JStr ''not_paid'')]), w)
                     else if \<not> truthy m
                     then (Inr (bad 400 [(''error'', JStr ''No email in event'')]), w)
                     else (case settle bi m w of (resp, w') \<Rightarrow> (Inr resp, w'))))"

subsection \<open>The processor that records Stripe metadata\<close>

record stripeData =
  sessionId :: jsval
  amountPaid :: jsval
  paymentDate :: string
  customerName :: jsval
  currency :: jsval

text \<open>The extraction of the session data; the date conversion throws on an invalid time.\<close>

definition stripe_data :: "builtins \<Rightarrow> jsval \<Rightarrow> error + stripeData" where
  "stripe_data bi session =
     (case iso_date bi (jprop session ''created'') of
        None \<Rightarrow> Inl RangeError
      | Some d \<Rightarrow>
          Inr \<lparr>sessionId = jprop session ''id'',
               amountPaid = js_or (jprop session ''amount_total'')
                              (jprop session ''amount_subtotal''),
               paymentDate = d,
               customerName =
                 js_or (if nullish (jprop session ''customer_details'') then JUndefined
                        else jprop (jprop session ''customer_details'') ''name'') JNull,
               currency = js_or (jprop session ''currency'') (JStr ''usd'')\<rparr>)"

text \<open>The dashboard link \<open>`https://dashboard.stripe.com/payments/${sessionId}`\<close>.\<close>

definition stripe_link :: "builtins \<Rightarrow> jsval \<Rightarrow> error + string" where
  "stripe_link bi sid =
     (case to_str bi sid of
        None \<Rightarrow> Inl TypeError
      | Some s \<Rightarrow> Inr (''https://dashboard.stripe.com/payments/'' @ s))"

text \<open>The properties \<open>markPaidWithStripeInfo\<close> builds before it sends them.\<close>

definition stripe_patch :: "builtins \<Rightarrow> stripeData \<Rightarrow> error + (string \<times> propval) list" where
  "stripe_patch bi sd =
     (case (if truthy (sessionId sd)
            then (case stripe_link bi (sessionId sd) of
                    Inl e \<Rightarrow> Inl e
                  | Inr l \<Rightarrow> Inr [(''stripe_session_id'', RichText (sessionId sd)),
                                   (''stripe_link'', UrlP (JStr l))])
            else Inr []) of
        Inl e \<Rightarrow> Inl e
      | Inr links \<Rightarrow>
          (case (if amountPaid sd \<noteq> JUndefined
                 then (case div100 bi (amountPaid sd) of
                         None \<Rightarrow> Inl TypeError
                       | Some a \<Rightarrow> Inr [(''amount_paid'', NumberP a)])
                 else Inr []) of
             Inl e \<Rightarrow> Inl e
           | Inr amount \<Rightarrow>
               Inr ([(''status'', SelectP (JStr ''paid''))] @ links @ amount
                    @ (if paymentDate sd \<noteq> []
                       then [(''payment_date'', DateP (JStr (paymentDate sd)))] else []))))"

definition markPaidWithStripeInfo ::
  "builtins \<Rightarrow> string \<Rightarrow> stripeData \<Rightarrow> world \<Rightarrow> (error + unit) \<times> world" where
  "markPaidWithStripeInfo bi pageId sd w =
     (case stripe_patch bi sd of
        Inl e \<Rightarrow> (Inl e, w)
      | Inr ps \<Rightarrow> send_patch bi pageId ps w)"

text \<open>
  The loop of the second processor, which also collects the updated pages:
  \<open>for (const p of pages) { await markPaidWithStripeInfo(p.id, stripeData); updated++;
  updatedPages.push({pageId: p.id, stripeLink: ...}); }\<close>
\<close>

fun mark_all_stripe ::
  "builtins \<Rightarrow> stripeData \<Rightarrow> page list \<Rightarrow> nat \<Rightarrow> jsval list \<Rightarrow> world
   \<Rightarrow> (error + nat \<times> jsval list) \<times> world" where
  "mark_all_stripe bi sd [] updated updatedPages w = (Inr (updated, updatedPages), w)"
| "mark_all_stripe bi sd (p # ps) updated updatedPages w =
     (case markPaidWithStripeInfo bi (pid p) sd w of
        (Inl e, w') \<Rightarrow> (Inl e, w')
      | (Inr u, w') \<Rightarrow>
          (case stripe_link bi (sessionId sd) of
             Inl e \<Rightarrow> (Inl e, w')
           | Inr l \<Rightarrow>
               mark_all_stripe bi sd ps (updated + 1)
                 (updatedPages @ [JObj [(''pageId'', JStr (pid p)), (''stripeLink'', JStr l)]])
                 w'))"

text \<open>The body of the success response, built inside the \<open>try\<close> block.\<close>

definition stripe_report ::
  "builtins \<Rightarrow> stripeData \<Rightarrow> jsval \<Rightarrow> nat \<Rightarrow> jsval list \<Rightarrow> error + response" where
  "stripe_report bi sd m updated updatedPages =
     (case stripe_link bi (sessionId sd) of
        Inl e \<Rightarrow> Inl e
      | Inr l \<Rightarrow>
          (case div100 bi (amountPaid sd) of
             None \<Rightarrow> Inl TypeError
           | Some a \<Rightarrow>
               Inr (ok [(''updated'', JNum (of_nat updated)), (''email'', m),
                        (''stripeSessionId'', sessionId sd),
                        (''stripeLink'', JStr l),
                        (''amountPaid'', JStr (CHR ''$'' # to_fixed2 bi a)),
                        (''pages'', JArr updatedPages)])))"

text \<open>The \<open>try\<close> block of the second processor.\<close>

definition settle_stripe :: "builtins \<Rightarrow> stripeData \<Rightarrow> jsval \<Rightarrow> world \<Rightarrow> response \<times> world" where
  "settle_stripe bi sd m w =
     (case findPagesByEmail bi m w of
        (Inl err, w1) \<Rightarrow> (bad 502 [(''error'', JStr (message err))], w1)
      | (Inr ps, w1) \<Rightarrow>
          if ps = []
          then (ok [(''updated'', JNum 0), (''note'', JStr ''no_matching_email''),
                    (''email'', m), (''stripeSessionId'', sessionId sd)], w1)
          else (case mark_all_stripe bi sd ps 0 [] w1 of
                  (Inl err, w2) \<Rightarrow> (bad 502 [(''error'', JStr (message err))], w2)
                | (Inr (updated, updatedPages), w2) \<Rightarrow>
                    (case stripe_report bi sd m updated updatedPages of
                       Inl err \<Rightarrow> (bad 502 [(''error'', JStr (message err))], w2)
                     | Inr resp \<Rightarrow> (resp, w2))))"

definition stripe_webhook_main ::
  "builtins \<Rightarrow> (string \<times> jsval) list \<Rightarrow> world \<Rightarrow> (error + response) \<times> world" where
  "stripe_webhook_main bi args w =
     (if jfield args ''__ow_method'' = JStr ''options''
      then (Inr \<lparr>statusCode = 204, headers = cors, body = None\<rparr>, w)
      else if jfield args ''__ow_method'' \<noteq> JStr ''post''
      then (Inr (bad 405 [(''error'', JStr ''Method not allowed'')]), w)
      else
        let event = parseEvent bi args
        in if \<not> truthy event
           then (Inr (bad 400 [(''error'', JStr ''Empty or invalid body'')]), w)
           else if jprop event ''type'' \<noteq> JStr ''checkout.session.completed''
           then (Inr (ok [(''ignored'', JBool True),
                          (''reason'', JStr ''unhandled_event_type'')]), w)
           else
             let session = session_of event; paid = paid_of session
             in (case email_of session of
                   Inl e \<Rightarrow> (Inl e, w)
                 | Inr m \<Rightarrow>
                     if \<not> truthy paid
                     then (Inr (ok [(''ignored'', JBool True), (''reason'', JStr ''not_paid'')]), w)
                     else if \<not> truthy m
                     then (Inr (bad 400 [(''error'', JStr ''No email in event'')]), w)
                     else (case stripe_data bi session of
                             Inl e \<Rightarrow> (Inl e, w)
                           | Inr sd \<Rightarrow>
                               (case settle_stripe bi sd m w of (resp, w') \<Rightarrow> (Inr resp, w')))))"

section \<open>Notions used in the statements\<close>

text \<open>
  A request reaches the registration flow when it is no preflight, its data is not
  \<open>null\<close> and it carries no availability parameter.
\<close>

definition registration_path :: "builtins \<Rightarrow> (string \<times> jsval) list \<Rightarrow> bool" where
  "registration_path bi args =
     (jfield args ''__ow_method'' \<noteq> JStr ''options''
      \<and> \<not> nullish (parseBody bi args)
      \<and> \<not> truthy (js_or (jprop (parseBody bi args) ''check-avail'')
                      (jprop (parseBody bi args) ''checkAvail'')))"

text \<open>Such a request whose five fields normalise to \<open>r\<close>.\<close>

definition registration_request :: "builtins \<Rightarrow> (string \<times> jsval) list \<Rightarrow> registration \<Rightarrow> bool" where
  "registration_request bi args r =
     (jfield args ''__ow_method'' \<noteq> JStr ''options''
      \<and> \<not> nullish (parseBody bi args)
      \<and> \<not> truthy (js_or (jprop (parseBody bi args) ''check-avail'')
                      (jprop (parseBody bi args) ''checkAvail''))
      \<and> normalize (parseBody bi args) = Inr r)"

text \<open>A field that normalises: a falsy value or a string.\<close>

definition textual :: "jsval \<Rightarrow> bool" where
  "textual v = (case v of JStr s \<Rightarrow> True | _ \<Rightarrow> \<not> truthy v)"

text \<open>The gate answers and counts ten or more paid pages for the cohort and date.\<close>

definition gate_full :: "registration \<Rightarrow> world \<Rightarrow> bool" where
  "gate_full r w =
     (verdict w (Query (gate_filter (JStr (cohort r)) (JStr (start_date r)))) = Accepted
      \<and> 10 \<le> length (run_query (gate_filter (JStr (cohort r)) (JStr (start_date r))) w))"

text \<open>Two worlds with the same database: they may differ in what was sent and logged.\<close>

definition same_store :: "world \<Rightarrow> world \<Rightarrow> bool" where
  "same_store a b = (pages a = pages b \<and> verdict a = verdict b \<and> new_id a = new_id b)"

text \<open>The error of a failed call.\<close>

definition thrown :: "error + 'a \<Rightarrow> error" where
  "thrown x = (case x of Inl e \<Rightarrow> e | Inr v \<Rightarrow> TypeError)"

text \<open>A request for the availability endpoint, with its two parameters.\<close>

definition availability_request :: "builtins \<Rightarrow> (string \<times> jsval) list \<Rightarrow> jsval \<Rightarrow> jsval \<Rightarrow> bool" where
  "availability_request bi args checkAvail checkDate =
     (jfield args ''__ow_method'' \<noteq> JStr ''options''
      \<and> \<not> nullish (parseBody bi args)
      \<and> checkAvail = js_or (jprop (parseBody bi args) ''check-avail'')
                        (jprop (parseBody bi args) ''checkAvail'')
      \<and> checkDate = js_or (jprop (parseBody bi args) ''check-date'')
                       (jprop (parseBody bi args) ''checkDate'')
      \<and> truthy checkAvail)"

text \<open>A post request whose event is a checkout completion.\<close>

definition completed_event :: "builtins \<Rightarrow> (string \<times> jsval) list \<Rightarrow> jsval \<Rightarrow> bool" where
  "completed_event bi args event =
     (jfield args ''__ow_method'' = JStr ''post''
      \<and> event = parseEvent bi args
      \<and> truthy event
      \<and> jprop event ''type'' = JStr ''checkout.session.completed'')"


text \<open>The database after the same patch has been applied to the pages with given identifiers.\<close>

definition patch_all :: "string set \<Rightarrow> (string \<times> propval) list \<Rightarrow> page \<Rightarrow> page" where
  "patch_all I ps p = (if pid p \<in> I then p\<lparr>props := props p ++ map_of ps\<rparr> else p)"

definition after_patches :: "(string \<times> propval) list \<Rightarrow> string list \<Rightarrow> world \<Rightarrow> world" where
  "after_patches ps is w =
     w\<lparr>trace := trace w @ map (\<lambda>i. Patch i ps) is,
       pages := map (patch_all (set is) ps) (pages w)\<rparr>"

section \<open>Writes and the status\<close>

text \<open>
  What the registration handler may send: a query, a creation with status registered, or
  a patch that does not name the status.
\<close>

definition registration_write :: "request \<Rightarrow> bool" where
  "registration_write r =
     (case r of
        Query q \<Rightarrow> True
      | Create ps \<Rightarrow> map_of ps ''status'' = Some (SelectP (JStr ''registered''))
      | Patch i ps \<Rightarrow> map_of ps ''status'' = None)"

text \<open>What a payment processor may send: a query, or a patch that sets the status to paid.\<close>

definition payment_write :: "request \<Rightarrow> bool" where
  "payment_write r =
     (case r of
        Query q \<Rightarrow> True
      | Create ps \<Rightarrow> False
      | Patch i ps \<Rightarrow> map_of ps ''status'' = Some (SelectP (JStr ''paid'')))"

text \<open>What a create-only handler may send: a creation that names no status or the status registered.\<close>

definition creation_write :: "request \<Rightarrow> bool" where
  "creation_write r =
     (case r of
        Query q \<Rightarrow> False
      | Create ps \<Rightarrow> map_of ps ''status'' = None
                      \<or> map_of ps ''status'' = Some (SelectP (JStr ''registered''))
      | Patch i ps \<Rightarrow> False)"

text \<open>
  The pages of \<open>w\<close> are still there in \<open>w'\<close>, with their identifiers, and those that were
  paid are paid.
\<close>

definition keeps_paid :: "world \<Rightarrow> world \<Rightarrow> bool" where
  "keeps_paid w w' =
     (length (pages w) \<le> length (pages w')
      \<and> (\<forall>i < length (pages w).
            pid (pages w' ! i) = pid (pages w ! i)
            \<and> (props (pages w ! i) ''status'' = Some (SelectP (JStr ''paid''))
                 \<longrightarrow> props (pages w' ! i) ''status'' = Some (SelectP (JStr ''paid'')))))"

text \<open>From \<open>w\<close> to \<open>w'\<close> only requests allowed by \<open>P\<close> were sent and no paid page was reverted.\<close>

definition advances :: "(request \<Rightarrow> bool) \<Rightarrow> world \<Rightarrow> world \<Rightarrow> bool" where
  "advances P w w' =
     ((\<exists>t. trace w' = trace w @ t \<and> list_all P t) \<and> keeps_paid w w')"

text \<open>The answer of a webhook entry point to a request that is no checkout completion.\<close>

definition early_answer :: "builtins \<Rightarrow> (string \<times> jsval) list \<Rightarrow> response" where
  "early_answer bi args =
     (if jfield args ''__ow_method'' = JStr ''options''
      then \<lparr>statusCode = 204, headers = cors, body = None\<rparr>
      else if jfield args ''__ow_method'' \<noteq> JStr ''post''
      then bad 405 [(''error'', JStr ''Method not allowed'')]
      else if \<not> truthy (parseEvent bi args)
      then bad 400 [(''error'', JStr ''Empty or invalid body'')]
      else ok [(''ignored'', JBool True), (''reason'', JStr ''unhandled_event_type'')])"

section \<open>Example data\<close>

text \<open>
  A runtime given on the values the examples use: the body \<open>e30=\<close> decodes to \<open>{}\<close>, the
  body \<open>bnVsbA==\<close> to \<open>null\<close>, and two more bodies to a completion event without data
  and to one whose data is the number 0; the
  time stamp 1700000000 falls on 2023-11-14.
\<close>

definition demo_runtime :: builtins where
  "demo_runtime =
     \<lparr>b64_utf8 = (\<lambda>v. if v = JStr ''e30='' then Some ''{}''
                       else if v = JStr ''bnVsbA=='' then Some ''null''
                       else if v = JStr ''eyJ0eXBlIjoiY2hlY2tvdXQuc2Vzc2lvbi5jb21wbGV0ZWQifQ==''
                       then Some ''{\"type\":\"checkout.session.completed\"}''
                       else if v = JStr ''eyJ0eXBlIjoiY2hlY2tvdXQuc2Vzc2lvbi5jb21wbGV0ZWQiLCJkYXRhIjowfQ==''
                       then Some ''{\"type\":\"checkout.session.completed\",\"data\":0}''
                       else None),
      json_parse = (\<lambda>s. if s = ''{}'' then Some (JObj [])
                         else if s = ''null'' then Some JNull
                         else if s = ''{\"type\":\"checkout.session.completed\"}''
                         then Some (JObj [(''type'', JStr ''checkout.session.completed'')])
                         else if s = ''{\"type\":\"checkout.session.completed\",\"data\":0}''
                         then Some (JObj [(''type'', JStr ''checkout.session.completed''),
                                          (''data'', JNum 0)])
                         else None),
      json_stringify = (\<lambda>v. ''{}''),
      iso_date = (\<lambda>v. if v = JNum 1700000000 then Some ''2023-11-14'' else None),
      div100 = (\<lambda>v. case v of JNum n \<Rightarrow> Some (JNum (n / 100)) | _ \<Rightarrow> None),
      to_fixed2 = (\<lambda>v. if v = JNum 49 then ''49.00'' else ''0.00''),
      to_str = (\<lambda>v. case v of JStr s \<Rightarrow> Some s | _ \<Rightarrow> None)\<rparr>"

text \<open>A page as the registration handler creates it, with a given status.\<close>

definition seat :: "string \<Rightarrow> registration \<Rightarrow> string \<Rightarrow> page" where
  "seat i r st =
     \<lparr>pid = i, props = (map_of (payload r))(''status'' \<mapsto> SelectP (JStr st))\<rparr>"

definition store_of :: "page list \<Rightarrow> world" where
  "store_of ps =
     \<lparr>pages = ps, verdict = (\<lambda>r. Accepted), new_id = ''page-new'', trace = [], console = []\<rparr>"

definition ana :: registration where
  "ana = \<lparr>name = ''Ana'', email = ''ana@x.com'', start_date = ''2024-03-01'',
          cohort = ''spring'', goal = ''learn basics''\<rparr>"

definition x_seat :: "string \<Rightarrow> page" where
  "x_seat i =
     seat i \<lparr>name = ''N'', email = ''n@x.com'', start_date = ''2024-01-01'', cohort = ''X'',
             goal = ''unknown''\<rparr> ''paid''"

definition ten_paid :: "page list" where
  "ten_paid = map x_seat [''p0'', ''p1'', ''p2'', ''p3'', ''p4'', ''p5'', ''p6'', ''p7'', ''p8'', ''p9'']"

definition three_paid :: "page list" where
  "three_paid = map x_seat [''p0'', ''p1'', ''p2'']"

text \<open>A cohort at capacity, with one more page that is registered and not paid.\<close>

definition spring_seat :: "string \<Rightarrow> page" where
  "spring_seat i =
     seat i \<lparr>name = ''N'', email = ''n@x.com'', start_date = ''2024-03-01'',
             cohort = ''spring'', goal = ''unknown''\<rparr> ''paid''"

definition spring_full :: "page list" where
  "spring_full =
     map spring_seat [''p0'', ''p1'', ''p2'', ''p3'', ''p4'', ''p5'', ''p6'', ''p7'', ''p8'', ''p9'']
     @ [seat ''ana-1'' ana ''registered'']"

definition ana_args :: "(string \<times> jsval) list" where
  "ana_args =
     [(''__ow_method'', JStr ''get''), (''name'', JStr ''Ana''), (''email'', JStr ''ana@x.com''),
      (''start_date'', JStr ''2024-03-01''), (''cohort'', JStr ''spring''),
      (''goal'', JStr ''learn basics'')]"

definition nameless_args :: "(string \<times> jsval) list" where
  "nameless_args =
     [(''__ow_method'', JStr ''get''), (''email'', JStr ''ana@x.com''),
      (''start_date'', JStr ''2024-03-01''), (''cohort'', JStr ''spring'')]"

definition ana_again_args :: "(string \<times> jsval) list" where
  "ana_again_args =
     [(''__ow_method'', JStr ''get''), (''name'', JStr ''Ana''), (''email'', JStr ''ana@x.com''),
      (''start_date'', JStr ''2024-03-01''), (''cohort'', JStr ''spring''),
      (''goal'', JStr ''build an app'')]"

text \<open>A store whose answer to every query that filters on the status fails.\<close>

definition gate_down :: "page list \<Rightarrow> world" where
  "gate_down ps =
     (store_of ps)\<lparr>verdict :=
        (\<lambda>r. case r of
                Query fs \<Rightarrow> if list_ex (\<lambda>(k, v). k = ''status'') fs
                             then Unreachable ''fetch failed'' else Accepted
              | _ \<Rightarrow> Accepted)\<rparr>"

definition check_args :: "(string \<times> jsval) list" where
  "check_args = [(''__ow_method'', JStr ''get''), (''check-avail'', JStr ''spring'')]"

definition nameless :: registration where
  "nameless = \<lparr>name = [], email = ''ana@x.com'', start_date = ''2024-03-01'',
               cohort = ''spring'', goal = ''unknown''\<rparr>"

definition ana_again :: registration where
  "ana_again = \<lparr>name = ''Ana'', email = ''ana@x.com'', start_date = ''2024-03-01'',
          cohort = ''spring'', goal = ''build an app''\<rparr>"

text \<open>A completion event without data, and one whose data has a null object.\<close>

definition bodiless_args :: "(string \<times> jsval) list" where
  "bodiless_args =
     [(''__ow_method'', JStr ''post''),
      (''__ow_body'', JStr ''eyJ0eXBlIjoiY2hlY2tvdXQuc2Vzc2lvbi5jb21wbGV0ZWQifQ=='')]"

definition objectless_args :: "(string \<times> jsval) list" where
  "objectless_args =
     [(''__ow_method'', JStr ''post''), (''type'', JStr ''checkout.session.completed''),
      (''data'', JObj [(''object'', JNull)])]"

text \<open>A paid session for Ana, and what the second processor extracts from it.\<close>

definition paid_session :: jsval where
  "paid_session =
     JObj [(''id'', JStr ''cs_1''), (''payment_status'', JStr ''paid''),
           (''customer_details'', JObj [(''email'', JStr ''ana@x.com''), (''name'', JStr ''Ana'')]),
           (''amount_total'', JNum 4900), (''created'', JNum 1700000000),
           (''currency'', JStr ''usd'')]"

definition paid_args :: "(string \<times> jsval) list" where
  "paid_args =
     [(''__ow_method'', JStr ''post''), (''type'', JStr ''checkout.session.completed''),
      (''data'', JObj [(''object'', paid_session)])]"

definition paid_data :: stripeData where
  "paid_data =
     \<lparr>sessionId = JStr ''cs_1'', amountPaid = JNum 4900, paymentDate = ''2023-11-14'',
      customerName = JStr ''Ana'', currency = JStr ''usd''\<rparr>"

definition paid_data_patch :: "(string \<times> propval) list" where
  "paid_data_patch =
     [(''status'', SelectP (JStr ''paid'')),
      (''stripe_session_id'', RichText (JStr ''cs_1'')),
      (''stripe_link'', UrlP (JStr ''https://dashboard.stripe.com/payments/cs_1'')),
      (''amount_paid'', NumberP (JNum 49)),
      (''payment_date'', DateP (JStr ''2023-11-14''))]"

text \<open>Ana's page, paid, and a store where it is registered only.\<close>

definition ana_paid_store :: world where
  "ana_paid_store = store_of [seat ''ana-1'' ana ''paid'']"

definition ana_registered_store :: world where
  "ana_registered_store = store_of [seat ''ana-1'' ana ''registered'', x_seat ''p0'']"

text \<open>
  A database without the Stripe properties: the store refuses every patch that names a
  property other than the status.
\<close>

definition status_only_store :: "page list \<Rightarrow> world" where
  "status_only_store ps =
     (store_of ps)\<lparr>verdict :=
        (\<lambda>r. case r of
                Patch i qs \<Rightarrow>
                  if list_all (\<lambda>(k, v). k = ''status'') qs then Accepted
                  else Rejected (JObj [(''code'', JStr ''validation_error'')])
              | _ \<Rightarrow> Accepted)\<rparr>"

text \<open>Ana's request with a number as its goal.\<close>

definition numeric_goal_args :: "(string \<times> jsval) list" where
  "numeric_goal_args =
     [(''__ow_method'', JStr ''get''), (''name'', JStr ''Ana''), (''email'', JStr ''ana@x.com''),
      (''start_date'', JStr ''2024-03-01''), (''cohort'', JStr ''spring''),
      (''goal'', JNum 5)]"


text \<open>A completion event whose data is the number 0.\<close>

definition zero_data_args :: "(string \<times> jsval) list" where
  "zero_data_args =
     [(''__ow_method'', JStr ''post''),
      (''__ow_body'', JStr ''eyJ0eXBlIjoiY2hlY2tvdXQuc2Vzc2lvbi5jb21wbGV0ZWQiLCJkYXRhIjowfQ=='')]"

section \<open>Properties of the availability gate\<close>

lemma gate_filter_default:
  "gate_filter c (if d = JUndefined then JNull else d) = gate_filter c d"
  by (simp add: gate_filter_def)

lemma satisfies_gate:
  "satisfies (gate_filter c d) =
     (\<lambda>p. props p ''cohort'' = Some (RichText c)
          \<and> props p ''status'' = Some (SelectP (JStr ''paid''))
          \<and> (truthy d \<longrightarrow> props p ''start_date'' = Some (DateP d)))"
  by (rule ext) (simp add: satisfies_def gate_filter_def)

text \<open>
  Claim C2. When the store answers the gate's query, the gate reports the number \<open>n\<close> of
  pages whose cohort is the given one, whose status is paid and, when a start date is
  supplied, whose start date is that date: \<open>isAvailable\<close> is \<open>n < 10\<close>, \<open>spotsLeft\<close> is
  \<open>max 0 (10 - n)\<close> and \<open>paidCount\<close> is \<open>n\<close>. Ten such pages give no availability and no
  spots, three give seven spots.
\<close>

theorem gate_counts_paid:
  assumes "verdict w (Query (gate_filter c d)) = Accepted"
  shows "let n = length [p \<leftarrow> pages w.
                    props p ''cohort'' = Some (RichText c)
                    \<and> props p ''status'' = Some (SelectP (JStr ''paid''))
                    \<and> (truthy d \<longrightarrow> props p ''start_date'' = Some (DateP d))];
             a = \<lparr>isAvailable = n < 10, spotsLeft = max 0 (10 - int n), paidCount = n\<rparr>
         in fst (checkCohortAvailability bi c d w) = Inr a
            \<and> (n = 10 \<longrightarrow> \<not> isAvailable a \<and> spotsLeft a = 0)
            \<and> (n = 3 \<longrightarrow> spotsLeft a = 7)"
  using assms
  by (simp add: checkCohortAvailability_def gate_filter_default run_query_def satisfies_gate
      Let_def)

theorem gate_counts_paid_witness:
  "verdict (store_of ten_paid) (Query (gate_filter (JStr ''X'') (JStr ''2024-01-01''))) = Accepted
   \<and> fst (checkCohortAvailability demo_runtime (JStr ''X'') (JStr ''2024-01-01'')
            (store_of ten_paid))
       = Inr \<lparr>isAvailable = False, spotsLeft = 0, paidCount = 10\<rparr>
   \<and> fst (checkCohortAvailability demo_runtime (JStr ''X'') (JStr ''2024-01-01'')
            (store_of three_paid))
       = Inr \<lparr>isAvailable = True, spotsLeft = 7, paidCount = 3\<rparr>"
  using gate_counts_paid [of "store_of ten_paid" "JStr ''X''" "JStr ''2024-01-01''" demo_runtime]
    gate_counts_paid [of "store_of three_paid" "JStr ''X''" "JStr ''2024-01-01''" demo_runtime]
  by (simp add: store_of_def ten_paid_def three_paid_def x_seat_def seat_def payload_def Let_def)

section \<open>Properties of the validator\<close>

text \<open>
  Claim C6. When the name is missing, the email does not match its pattern or the start
  date does not match its pattern, the validator returns a non-empty list that holds one
  message for each violated rule and none for the others, in the order name, email, start
  date; a missing name with a bad email and a well-formed date gives exactly two entries.
  The handler then answers 400 with that list and sends nothing to the store.
\<close>

theorem validator_lists_every_violation:
  assumes "n = [] \<or> \<not> validEmail m \<or> \<not> matches date_pattern d"
  shows "validate n m d \<noteq> []
     \<and> length (validate n m d)
         = (if n = [] then 1 else 0) + (if \<not> validEmail m then 1 else 0)
           + (if \<not> matches date_pattern d then 1 else 0)
     \<and> (''name is required'' \<in> set (validate n m d)) = (n = [])
     \<and> (''valid email is required'' \<in> set (validate n m d)) = (\<not> validEmail m)
     \<and> (''start_date must be ISO yyyy-mm-dd'' \<in> set (validate n m d))
         = (\<not> matches date_pattern d)
     \<and> distinct (validate n m d)
     \<and> subseq (validate n m d)
         [''name is required'', ''valid email is required'',
          ''start_date must be ISO yyyy-mm-dd'']
     \<and> (n = [] \<and> \<not> validEmail m \<and> matches date_pattern d
          \<longrightarrow> length (validate n m d) = 2)
     \<and> validated_upsert bi \<lparr>name = n, email = m, start_date = d, cohort = c, goal = g\<rparr> w
         = (\<lparr>statusCode = 400, headers = json_headers,
             body = Some (JObj [(''ok'', JBool False),
                                (''errors'', JArr (map JStr (validate n m d)))])\<rparr>, w)"
  using assms by (auto simp: validate_def validated_upsert_def Let_def)

theorem validator_lists_every_violation_witness:
  "([] = ([]::string) \<or> \<not> validEmail ''not-an-email'' \<or> \<not> matches date_pattern ''2024-03-01'')
   \<and> validate [] ''not-an-email'' ''2024-03-01'' \<noteq> []
   \<and> length (validate [] ''not-an-email'' ''2024-03-01'') = 2"
proof -
  have h: "[] = ([]::string) \<or> \<not> validEmail ''not-an-email''
           \<or> \<not> matches date_pattern ''2024-03-01''"
    by simp
  have bad: "\<not> validEmail ''not-an-email''"
    by (simp add: validEmail_def trim_def email_pattern_def js_space_def)
  have good: "matches date_pattern ''2024-03-01''"
    by (simp add: date_pattern_def)
  note t = validator_lists_every_violation [OF h, of demo_runtime "[]" "[]" "store_of []"]
  from t have nonempty: "validate [] ''not-an-email'' ''2024-03-01'' \<noteq> []"
    by (rule conjunct1)
  from t have "[] = ([]::string) \<and> \<not> validEmail ''not-an-email'' \<and> matches date_pattern ''2024-03-01''
       \<longrightarrow> length (validate [] ''not-an-email'' ''2024-03-01'') = 2"
    by (elim conjE)
  with bad good have "length (validate [] ''not-an-email'' ''2024-03-01'') = 2"
    by simp
  with h nonempty show ?thesis by simp
qed

section \<open>Properties of the registration handler\<close>

lemma register_main_registration:
  "registration_request bi args r \<Longrightarrow>
   register_main bi args w = (Inr (fst (register bi r w)), snd (register bi r w))"
  by (simp add: registration_request_def register_main_def Let_def split: prod.splits)

lemma gate_world:
  "snd (checkCohortAvailability bi c d w) = sent (Query (gate_filter c d)) w"
  by (simp add: checkCohortAvailability_def gate_filter_default Let_def split: reply.splits)

lemma gate_result:
  "fst (checkCohortAvailability bi c d w) =
     (case verdict w (Query (gate_filter c d)) of
        Unreachable m \<Rightarrow> Inl (Error (''Failed to check availability: '' @ m))
      | Rejected j \<Rightarrow> Inl (Error (''Failed to check availability: '' @ ''Notion API error: ''
                          @ json_stringify bi j))
      | Accepted \<Rightarrow> (let n = length (run_query (gate_filter c d) w) in
            Inr \<lparr>isAvailable = n < 10, spotsLeft = max 0 (10 - int n), paidCount = n\<rparr>))"
  by (simp add: checkCohortAvailability_def gate_filter_default Let_def split: reply.splits)

lemma register_cases:
  "register bi r w =
    (let q = Query (gate_filter (JStr (cohort r)) (JStr (start_date r)))
     in if gate_full r w
        then (\<lparr>statusCode = 409, headers = json_headers,
                 body = Some (JObj [(''ok'', JBool False), (''error'', JStr ''Cohort is full''),
                                    (''cohort'', JStr (cohort r)),
                                    (''startDate'', JStr (start_date r)),
                                    (''spotsLeft'', JNum 0)])\<rparr>, sent q w)
        else if verdict w q = Accepted then validated_upsert bi r (sent q w)
        else validated_upsert bi r
               (logged (''Availability check failed: ''
                         @ message (case fst (checkCohortAvailability bi (JStr (cohort r)) (JStr (start_date r)) w) of Inl e \<Rightarrow> e | Inr _ \<Rightarrow> TypeError))
                  (sent q w)))"
  apply (simp add: register_def gate_full_def Let_def split: prod.splits sum.splits)
  apply (intro allI impI conjI)
  using gate_world[of bi "JStr (cohort r)" "JStr (start_date r)" w] 
        gate_result[of bi  "JStr (cohort r)" "JStr (start_date r)" w] 
  apply (auto split: reply.splits simp: Let_def)
  done

lemma sent_fields [simp]:
  "trace (sent q w) = trace w @ [q]" "pages (sent q w) = pages w"
  "verdict (sent q w) = verdict w" "new_id (sent q w) = new_id w"
  "console (sent q w) = console w"
  by (simp_all add: sent_def)

lemma logged_fields [simp]:
  "trace (logged l w) = trace w" "pages (logged l w) = pages w"
  "verdict (logged l w) = verdict w" "new_id (logged l w) = new_id w"
  "console (logged l w) = console w @ [l]"
  by (simp_all add: logged_def)

lemma run_patch_fields [simp]:
  "trace (run_patch i ps w) = trace w" "pages (run_patch i ps w) = map (apply_patch i ps) (pages w)"
  "verdict (run_patch i ps w) = verdict w" "new_id (run_patch i ps w) = new_id w"
  "console (run_patch i ps w) = console w"
  by (simp_all add: run_patch_def)

lemma run_create_fields [simp]:
  "trace (run_create ps w) = trace w"
  "pages (run_create ps w) = pages w @ [\<lparr>pid = new_id w, props = map_of ps\<rparr>]"
  "verdict (run_create ps w) = verdict w" "new_id (run_create ps w) = new_id w"
  "console (run_create ps w) = console w"
  by (simp_all add: run_create_def)

lemma run_query_cong:
  "pages w2 = pages w \<Longrightarrow> run_query q w2 = run_query q w"
  by (simp add: run_query_def)

lemma same_store_steps [simp]:
  "same_store a b \<Longrightarrow> same_store (sent q a) (sent q' b)"
  "same_store a b \<Longrightarrow> same_store (logged l a) (logged l' b)"
  "same_store a b \<Longrightarrow> same_store (sent q a) b"
  "same_store a b \<Longrightarrow> same_store (logged l a) b"
  "same_store a a"
  by (simp_all add: same_store_def)

lemma create_page_same:
  assumes "same_store a b"
  shows "fst (create_page r a) = fst (create_page r b)
       \<and> pages (snd (create_page r a)) = pages (snd (create_page r b))"
  using assms by (simp add: same_store_def create_page_def Let_def split: reply.splits)

lemma create_page_trace:
  "trace (snd (create_page r w)) = trace w @ [Create (payload r)]"
  "console (snd (create_page r w)) = console w"
  by (simp_all add: create_page_def Let_def split: reply.splits)

lemma upsert_cases:
  "upsert bi r w =
    (let q = Query (find_filter (email r) (cohort r) (start_date r));
         w1 = sent q w;
         note = (\<lambda>e. logged (''Failed to check/update existing record: '' @ message e))
     in if verdict w q \<noteq> Accepted
        then create_page r
               (note (thrown (fst (findExistingRecord bi (email r) (cohort r) (start_date r) w))) w1)
        else (case run_query (find_filter (email r) (cohort r) (start_date r)) w of
                [] \<Rightarrow> create_page r w1
              | p # ps \<Rightarrow>
                  if verdict w (Patch (pid p) (goal_patch (goal r))) = Accepted
                  then (\<lparr>statusCode = 200, headers = json_headers,
                          body = Some (JObj [(''ok'', JBool True), (''pageId'', JStr (pid p)),
                                    (''updated'', JBool True),
                                    (''message'', JStr ''Updated existing registration'')])\<rparr>,
                        run_patch (pid p) (goal_patch (goal r))
                          (sent (Patch (pid p) (goal_patch (goal r))) w1))
                  else create_page r
                         (note (thrown (fst (updateExistingRecord bi (pid p) (goal r) w1)))
                            (sent (Patch (pid p) (goal_patch (goal r))) w1))))"
  by (simp add: upsert_def findExistingRecord_def updateExistingRecord_def thrown_def Let_def
      split: reply.splits list.splits)

lemma upsert_same:
  assumes "same_store w2 w"
  shows "fst (upsert bi r w2) = fst (upsert bi r w)
       \<and> pages (snd (upsert bi r w2)) = pages (snd (upsert bi r w))"
proof -
  let ?f = "find_filter (email r) (cohort r) (start_date r)"
  have v: "verdict w2 = verdict w" and pg: "pages w2 = pages w"
    using assms by (simp_all add: same_store_def)
  have q: "run_query ?f w2 = run_query ?f w"
    using pg by (rule run_query_cong)
  show ?thesis
  proof (cases "verdict w (Query ?f) = Accepted")
    case False
    then obtain x y where "upsert bi r w2 = create_page r (logged x (sent (Query ?f) w2))"
      and "upsert bi r w = create_page r (logged y (sent (Query ?f) w))"
      by (simp add: upsert_cases v Let_def)
    then show ?thesis using assms by (simp add: create_page_same)
  next
    case True
    show ?thesis
    proof (cases "run_query ?f w")
      case Nil
      then have "upsert bi r w2 = create_page r (sent (Query ?f) w2)"
        and "upsert bi r w = create_page r (sent (Query ?f) w)"
        using True by (simp_all add: upsert_cases v q Let_def)
      then show ?thesis using assms by (simp add: create_page_same)
    next
      case (Cons p ps)
      let ?p = "Patch (pid p) (goal_patch (goal r))"
      show ?thesis
      proof (cases "verdict w ?p = Accepted")
        case True
        then show ?thesis using Cons \<open>verdict w (Query ?f) = Accepted\<close>
          by (simp add: upsert_cases v q pg Let_def)
      next
        case False
        then obtain x y where
          "upsert bi r w2 = create_page r (logged x (sent ?p (sent (Query ?f) w2)))"
          and "upsert bi r w = create_page r (logged y (sent ?p (sent (Query ?f) w)))"
          using Cons \<open>verdict w (Query ?f) = Accepted\<close> by (simp add: upsert_cases v q Let_def)
        then show ?thesis using assms by (simp add: create_page_same)
      qed
    qed
  qed
qed

lemma validated_upsert_same:
  assumes "same_store w2 w"
  shows "fst (validated_upsert bi r w2) = fst (validated_upsert bi r w)
       \<and> pages (snd (validated_upsert bi r w2)) = pages (snd (validated_upsert bi r w))"
  using upsert_same[OF assms] assms by (simp add: validated_upsert_def Let_def same_store_def)

lemma upsert_trace:
  "\<exists>t. trace (snd (upsert bi r w))
        = trace w @ Query (find_filter (email r) (cohort r) (start_date r)) # t"
  by (simp add: upsert_cases Let_def create_page_trace split: list.splits)

lemma upsert_console:
  "\<exists>t. console (snd (upsert bi r w)) = console w @ t"
  by (simp add: upsert_cases Let_def create_page_trace split: list.splits)

text \<open>
  Claim C1 as stated fails: a request without a name, sent to a full cohort, is answered
  409 and not 400, and the gate's query has been sent although the fields are invalid.
\<close>

theorem gate_precedes_validation_counterexample:
  "validate (name \<lparr>name = [], email = ''ana@x.com'', start_date = ''2024-03-01'',
                   cohort = ''spring'', goal = ''unknown''\<rparr>) ''ana@x.com'' ''2024-03-01''
     = [''name is required'']
   \<and> fst (register_main demo_runtime nameless_args (store_of spring_full))
       = Inr \<lparr>statusCode = 409, headers = json_headers,
               body = Some (JObj [(''ok'', JBool False), (''error'', JStr ''Cohort is full''),
                                  (''cohort'', JStr ''spring''),
                                  (''startDate'', JStr ''2024-03-01''),
                                  (''spotsLeft'', JNum 0)])\<rparr>
   \<and> trace (snd (register_main demo_runtime nameless_args (store_of spring_full)))
       = [Query (gate_filter (JStr ''spring'') (JStr ''2024-03-01''))]"
  by code_simp

lemma validated_upsert_trace:
  "validate (name r) (email r) (start_date r) = [] \<Longrightarrow>
   \<exists>t. trace (snd (validated_upsert bi r w))
        = trace w @ Query (find_filter (email r) (cohort r) (start_date r)) # t"
  using upsert_trace[of bi r w] by (simp add: validated_upsert_def)

lemma validated_upsert_invalid:
  "validate (name r) (email r) (start_date r) \<noteq> [] \<Longrightarrow>
   validated_upsert bi r w
     = (\<lparr>statusCode = 400, headers = json_headers,
         body = Some (JObj [(''ok'', JBool False),
                            (''errors'', JArr (map JStr (validate (name r) (email r) (start_date r))))])\<rparr>, w)"
  by (simp add: validated_upsert_def)

text \<open>The order of the steps once the fields have normalised.\<close>

lemma gate_then_validation:
  assumes "registration_request bi args r"
  shows "let q = Query (gate_filter (JStr (cohort r)) (JStr (start_date r)));
             errors = validate (name r) (email r) (start_date r);
             out = register_main bi args w
         in \<exists>resp. fst out = Inr resp
              \<and> (\<exists>t. trace (snd out) = trace w @ q # t)
              \<and> (gate_full r w \<longrightarrow> statusCode resp = 409 \<and> trace (snd out) = trace w @ [q])
              \<and> (\<not> gate_full r w \<and> errors \<noteq> [] \<longrightarrow>
                    resp = \<lparr>statusCode = 400, headers = json_headers,
                            body = Some (JObj [(''ok'', JBool False),
                                               (''errors'', JArr (map JStr errors))])\<rparr>
                    \<and> trace (snd out) = trace w @ [q])
              \<and> (\<not> gate_full r w \<and> errors = [] \<longrightarrow>
                    (\<exists>t. trace (snd out)
                          = trace w @ q # Query (find_filter (email r) (cohort r) (start_date r)) # t))"
proof -
  let ?q = "Query (gate_filter (JStr (cohort r)) (JStr (start_date r)))"
  let ?errors = "validate (name r) (email r) (start_date r)"
  have main: "register_main bi args w = (Inr (fst (register bi r w)), snd (register bi r w))"
    using assms by (rule register_main_registration)
  show ?thesis
  proof (cases "gate_full r w")
    case True
    then show ?thesis by (simp add: main register_cases Let_def)
  next
    case False
    show ?thesis
    proof (cases "?errors = []")
      case True
      from validated_upsert_trace[OF True, of bi "sent ?q w"]
        validated_upsert_trace[OF True, of bi "logged l (sent ?q w)" for l]
      show ?thesis using False True
        by (auto simp add: main register_cases Let_def)
    next
      case invalid: False
      then show ?thesis using False
        by (simp add: main register_cases Let_def validated_upsert_invalid)
    qed
  qed
qed

lemma apply_patch_frame:
  "pid (apply_patch i ps p) = pid p"
  "map_of ps k = None \<Longrightarrow> props (apply_patch i ps p) k = props p k"
  "pid p \<noteq> i \<Longrightarrow> apply_patch i ps p = p"
  "pid p = i \<Longrightarrow> props (apply_patch i ps p) k = (case map_of ps k of None \<Rightarrow> props p k | Some v \<Rightarrow> Some v)"
  by (simp_all add: apply_patch_def map_add_def split: option.splits)

text \<open>The upsert of a request whose fields have normalised.\<close>

lemma upsert_after_gate:
  assumes "registration_request bi args r"
    and "validate (name r) (email r) (start_date r) = []"
    and "\<not> gate_full r w"
    and "verdict w (Query (find_filter (email r) (cohort r) (start_date r))) = Accepted"
  shows "let out = register_main bi args w; w' = snd out
         in case run_query (find_filter (email r) (cohort r) (start_date r)) w of
              p # ps \<Rightarrow>
                verdict w (Patch (pid p) (goal_patch (goal r))) = Accepted \<longrightarrow>
                  fst out = Inr \<lparr>statusCode = 200, headers = json_headers,
                                  body = Some (JObj [(''ok'', JBool True), (''pageId'', JStr (pid p)),
                                    (''updated'', JBool True),
                                    (''message'', JStr ''Updated existing registration'')])\<rparr>
                  \<and> length (pages w') = length (pages w)
                  \<and> (\<forall>i < length (pages w).
                        pid (pages w' ! i) = pid (pages w ! i)
                        \<and> (\<forall>k. k \<noteq> ''expectation'' \<longrightarrow>
                               props (pages w' ! i) k = props (pages w ! i) k)
                        \<and> props (pages w' ! i) ''expectation''
                            = (if pid (pages w ! i) = pid p then Some (RichText (JStr (goal r)))
                               else props (pages w ! i) ''expectation''))
            | [] \<Rightarrow>
                verdict w (Create (payload r)) = Accepted \<longrightarrow>
                  fst out = Inr \<lparr>statusCode = 200, headers = json_headers,
                                  body = Some (JObj [(''ok'', JBool True),
                                    (''pageId'', JStr (new_id w)), (''created'', JBool True),
                                    (''message'', JStr ''Created new registration'')])\<rparr>
                  \<and> butlast (pages w') = pages w
                  \<and> pid (last (pages w')) = new_id w
                  \<and> props (last (pages w')) ''name'' = Some (Title (JStr (name r)))
                  \<and> props (last (pages w')) ''email'' = Some (EmailP (JStr (email r)))
                  \<and> props (last (pages w')) ''start_date'' = Some (DateP (JStr (start_date r)))
                  \<and> props (last (pages w')) ''cohort'' = Some (RichText (JStr (cohort r)))
                  \<and> props (last (pages w')) ''expectation'' = Some (RichText (JStr (goal r)))
                  \<and> props (last (pages w')) ''status'' = Some (SelectP (JStr ''registered''))"
proof -
  let ?q = "Query (gate_filter (JStr (cohort r)) (JStr (start_date r)))"
  let ?f = "find_filter (email r) (cohort r) (start_date r)"
  have main: "register_main bi args w = (Inr (fst (register bi r w)), snd (register bi r w))"
    using assms(1) by (rule register_main_registration)
  have valid: "validated_upsert bi r v = upsert bi r v" for v
    using assms(2) by (simp add: validated_upsert_def)
  have "\<exists>w0. register bi r w = upsert bi r w0 \<and> same_store w0 w"
  proof (cases "verdict w ?q = Accepted")
    case True
    then have "register bi r w = upsert bi r (sent ?q w)"
      using assms(3) by (simp add: register_cases Let_def valid)
    moreover have "same_store (sent ?q w) w" by simp
    ultimately show ?thesis by blast
  next
    case False
    then obtain l where "register bi r w = upsert bi r (logged l (sent ?q w))"
      using assms(3) by (simp add: register_cases Let_def valid)
    moreover have "same_store (logged l (sent ?q w)) w" by simp
    ultimately show ?thesis by blast
  qed
  then obtain w0 where reg: "register bi r w = upsert bi r w0" and same: "same_store w0 w"
    by blast
  have up: "fst (upsert bi r w0) = fst (upsert bi r w)"
           "pages (snd (upsert bi r w0)) = pages (snd (upsert bi r w))"
    using upsert_same[OF same] by simp_all
  have out: "fst (register_main bi args w) = Inr (fst (upsert bi r w))"
            "pages (snd (register_main bi args w)) = pages (snd (upsert bi r w))"
    by (simp_all add: main reg up)
  show ?thesis
  proof (cases "run_query ?f w")
    case Nil
    then have u: "upsert bi r w = create_page r (sent (Query ?f) w)"
      using assms(4) by (simp add: upsert_cases Let_def)
    show ?thesis
      by (simp add: Let_def out u Nil create_page_def payload_def)
  next
    case (Cons p ps)
    let ?p = "Patch (pid p) (goal_patch (goal r))"
    show ?thesis
    proof (cases "verdict w ?p = Accepted")
      case True
      then have u: "upsert bi r w =
          (\<lparr>statusCode = 200, headers = json_headers,
            body = Some (JObj [(''ok'', JBool True), (''pageId'', JStr (pid p)),
                               (''updated'', JBool True),
                               (''message'', JStr ''Updated existing registration'')])\<rparr>,
           run_patch (pid p) (goal_patch (goal r)) (sent ?p (sent (Query ?f) w)))"
        using assms(4) Cons by (simp add: upsert_cases Let_def)
      show ?thesis
        by (simp add: Let_def out u Cons apply_patch_frame goal_patch_def)
    next
      case False
      then show ?thesis by (simp add: Let_def Cons)
    qed
  qed
qed

lemma trimmed_textual: "(\<exists>s. trimmed v d = Inr s) = textual v"
  by (cases v) (auto simp add: trimmed_def js_or_def textual_def)

lemma trimmed_error: "trimmed v d = Inl e \<Longrightarrow> e = TypeError"
  by (cases v) (auto simp add: trimmed_def js_or_def split: if_splits)

lemma normalize_error: "normalize data = Inl e \<Longrightarrow> e = TypeError"
  by (auto simp add: normalize_def split: sum.splits dest: trimmed_error)

lemma normalize_textual:
  "(\<exists>r. normalize data = Inr r)
   = list_all (\<lambda>k. textual (jprop data k))
       [''name'', ''email'', ''start_date'', ''cohort'', ''goal'']"
proof -
  have t: "textual (jprop data k) = (\<exists>s. trimmed (jprop data k) d = Inr s)" for k d
    by (simp add: trimmed_textual)
  show ?thesis
    apply (simp add: t [of "''name''" "[]"] t [of "''email''" "[]"] t [of "''start_date''" "[]"]
        t [of "''cohort''" "''unknown''"] t [of "''goal''" "''unknown''"])
    apply (auto simp add: normalize_def split: sum.splits)
    done
qed

lemma register_main_throws:
  "registration_path bi args \<Longrightarrow> normalize (parseBody bi args) = Inl e \<Longrightarrow>
   register_main bi args w = (Inl e, w)"
  by (simp add: registration_path_def register_main_def Let_def)

lemma registration_request_path:
  "registration_request bi args r
   = (registration_path bi args \<and> normalize (parseBody bi args) = Inr r)"
  by (auto simp add: registration_request_def registration_path_def)

text \<open>
  Claim C1, amended. For a request that reaches the registration flow, the handler
  normalises first: the five fields normalise exactly when each of them is falsy or a
  string, and otherwise the handler throws a TypeError and sends nothing. When they
  normalise, it queries the availability gate, then validates, then resolves the upsert:
  the gate's query is the first request sent, whether the fields are valid or not; a full
  cohort is answered 409 with no further request; otherwise invalid fields are answered 400
  with the list of errors and no further request; otherwise the lookup of the existing
  record is the next request.
\<close>

theorem registration_runs_gate_then_validation:
  assumes "registration_path bi args"
  shows "list_all (\<lambda>k. textual (jprop (parseBody bi args) k))
           [''name'', ''email'', ''start_date'', ''cohort'', ''goal'']
         = (\<exists>r. normalize (parseBody bi args) = Inr r)
       \<and> (case normalize (parseBody bi args) of
             Inl e \<Rightarrow> register_main bi args w = (Inl TypeError, w)
           | Inr r \<Rightarrow>
               (let q = Query (gate_filter (JStr (cohort r)) (JStr (start_date r)));
                    errors = validate (name r) (email r) (start_date r);
                    out = register_main bi args w
                in \<exists>resp. fst out = Inr resp
                     \<and> (\<exists>t. trace (snd out) = trace w @ q # t)
                     \<and> (gate_full r w \<longrightarrow>
                           statusCode resp = 409 \<and> trace (snd out) = trace w @ [q])
                     \<and> (\<not> gate_full r w \<and> errors \<noteq> [] \<longrightarrow>
                           resp = \<lparr>statusCode = 400, headers = json_headers,
                                   body = Some (JObj [(''ok'', JBool False),
                                                      (''errors'', JArr (map JStr errors))])\<rparr>
                           \<and> trace (snd out) = trace w @ [q])
                     \<and> (\<not> gate_full r w \<and> errors = [] \<longrightarrow>
                           (\<exists>t. trace (snd out)
                                 = trace w @ q
                                   # Query (find_filter (email r) (cohort r) (start_date r))
                                   # t))))"
proof (cases "normalize (parseBody bi args)")
  case (Inl e)
  then have "e = TypeError" by (rule normalize_error)
  with register_main_throws [OF assms Inl, of w] Inl show ?thesis
    using normalize_textual [of "parseBody bi args"] by simp
next
  case (Inr r)
  with assms have "registration_request bi args r"
    by (simp add: registration_request_path)
  from gate_then_validation [OF this, of w] Inr show ?thesis
    using normalize_textual [of "parseBody bi args"] by simp
qed

lemma nameless_path: "registration_path demo_runtime nameless_args"
  by code_simp

lemma nameless_normal: "normalize (parseBody demo_runtime nameless_args) = Inr nameless"
  by code_simp

lemma numeric_goal_path: "registration_path demo_runtime numeric_goal_args"
  by code_simp

lemma numeric_goal_throws: "normalize (parseBody demo_runtime numeric_goal_args) = Inl TypeError"
  by code_simp

theorem registration_runs_gate_then_validation_witness:
  "registration_path demo_runtime nameless_args
   \<and> normalize (parseBody demo_runtime nameless_args) = Inr nameless
   \<and> \<not> gate_full nameless (store_of [])
   \<and> validate (name nameless) (email nameless) (start_date nameless) \<noteq> []
   \<and> statusCode (projr (fst (register_main demo_runtime nameless_args (store_of [])))) = 400
   \<and> trace (snd (register_main demo_runtime nameless_args (store_of [])))
       = [Query (gate_filter (JStr (cohort nameless)) (JStr (start_date nameless)))]
   \<and> registration_path demo_runtime numeric_goal_args
   \<and> register_main demo_runtime numeric_goal_args (store_of []) = (Inl TypeError, store_of [])"
proof -
  have g: "\<not> gate_full nameless (store_of [])" by code_simp
  have v: "validate (name nameless) (email nameless) (start_date nameless) \<noteq> []" by code_simp
  have e: "trace (store_of []) = []" by (simp add: store_of_def)
  note t = registration_runs_gate_then_validation [OF nameless_path, of "store_of []",
      THEN conjunct2, unfolded nameless_normal sum.case Let_def]
  from t g v have a: "statusCode (projr (fst (register_main demo_runtime nameless_args
                                              (store_of [])))) = 400
     \<and> trace (snd (register_main demo_runtime nameless_args (store_of [])))
         = [Query (gate_filter (JStr (cohort nameless)) (JStr (start_date nameless)))]"
    by (auto simp add: e)
  note u = registration_runs_gate_then_validation [OF numeric_goal_path, of "store_of []",
      THEN conjunct2, unfolded numeric_goal_throws sum.case]
  from nameless_path nameless_normal g v a numeric_goal_path u show ?thesis by blast
qed

text \<open>
  Claim C3 as stated fails: a request with valid fields for which a matching page exists
  is answered 409 when the cohort is full; no patch is sent and the goal stays as it was.
  And with a number as its goal, a request with valid name, email and start date throws a
  TypeError when it is normalised, although a page matches and the cohort has room.
\<close>

theorem full_cohort_blocks_update_counterexample:
  "validate (name ana_again) (email ana_again) (start_date ana_again) = []
   \<and> map pid (run_query (find_filter (email ana_again) (cohort ana_again) (start_date ana_again))
                (store_of spring_full)) = [''ana-1'']
   \<and> fst (register_main demo_runtime ana_again_args (store_of spring_full))
       = Inr \<lparr>statusCode = 409, headers = json_headers,
               body = Some (JObj [(''ok'', JBool False), (''error'', JStr ''Cohort is full''),
                                  (''cohort'', JStr ''spring''),
                                  (''startDate'', JStr ''2024-03-01''),
                                  (''spotsLeft'', JNum 0)])\<rparr>
   \<and> trace (snd (register_main demo_runtime ana_again_args (store_of spring_full)))
       = [Query (gate_filter (JStr ''spring'') (JStr ''2024-03-01''))]
   \<and> map (\<lambda>p. props p ''expectation'')
         (pages (snd (register_main demo_runtime ana_again_args (store_of spring_full))))
       = map (\<lambda>p. props p ''expectation'') spring_full
   \<and> validate ''Ana'' ''ana@x.com'' ''2024-03-01'' = []
   \<and> map pid (run_query (find_filter ''ana@x.com'' ''spring'' ''2024-03-01'')
                (store_of [seat ''ana-1'' ana ''registered''])) = [''ana-1'']
   \<and> fst (register_main demo_runtime numeric_goal_args (store_of [seat ''ana-1'' ana ''registered'']))
       = Inl TypeError
   \<and> trace (snd (register_main demo_runtime numeric_goal_args
                    (store_of [seat ''ana-1'' ana ''registered'']))) = []"
  by code_simp

text \<open>
  Claim C3, amended. For a request that reaches the registration flow and whose five
  fields normalise to \<open>r\<close> (each is falsy or a string), with valid name, email and start
  date, that the gate does not turn away as full, when the store accepts the lookup: if a
  page matches the email, cohort and start date and the store accepts the patch, the
  response is the update report with the identifier of the first match, and every page
  keeps its identifier and all its properties except that the expectation of the pages
  with that identifier becomes the goal; if no page matches and the store accepts the
  creation, the response is the creation report and one page is added, with the store's
  identifier, the five input fields and the status registered.
\<close>

theorem upsert_patches_goal_or_creates:
  assumes "registration_path bi args"
    and "normalize (parseBody bi args) = Inr r"
    and "validate (name r) (email r) (start_date r) = []"
    and "\<not> gate_full r w"
    and "verdict w (Query (find_filter (email r) (cohort r) (start_date r))) = Accepted"
  shows "let out = register_main bi args w; w' = snd out
         in case run_query (find_filter (email r) (cohort r) (start_date r)) w of
              p # ps \<Rightarrow>
                verdict w (Patch (pid p) (goal_patch (goal r))) = Accepted \<longrightarrow>
                  fst out = Inr \<lparr>statusCode = 200, headers = json_headers,
                                  body = Some (JObj [(''ok'', JBool True), (''pageId'', JStr (pid p)),
                                    (''updated'', JBool True),
                                    (''message'', JStr ''Updated existing registration'')])\<rparr>
                  \<and> length (pages w') = length (pages w)
                  \<and> (\<forall>i < length (pages w).
                        pid (pages w' ! i) = pid (pages w ! i)
                        \<and> (\<forall>k. k \<noteq> ''expectation'' \<longrightarrow>
                               props (pages w' ! i) k = props (pages w ! i) k)
                        \<and> props (pages w' ! i) ''expectation''
                            = (if pid (pages w ! i) = pid p then Some (RichText (JStr (goal r)))
                               else props (pages w ! i) ''expectation''))
            | [] \<Rightarrow>
                verdict w (Create (payload r)) = Accepted \<longrightarrow>
                  fst out = Inr \<lparr>statusCode = 200, headers = json_headers,
                                  body = Some (JObj [(''ok'', JBool True),
                                    (''pageId'', JStr (new_id w)), (''created'', JBool True),
                                    (''message'', JStr ''Created new registration'')])\<rparr>
                  \<and> butlast (pages w') = pages w
                  \<and> pid (last (pages w')) = new_id w
                  \<and> props (last (pages w')) ''name'' = Some (Title (JStr (name r)))
                  \<and> props (last (pages w')) ''email'' = Some (EmailP (JStr (email r)))
                  \<and> props (last (pages w')) ''start_date'' = Some (DateP (JStr (start_date r)))
                  \<and> props (last (pages w')) ''cohort'' = Some (RichText (JStr (cohort r)))
                  \<and> props (last (pages w')) ''expectation'' = Some (RichText (JStr (goal r)))
                  \<and> props (last (pages w')) ''status'' = Some (SelectP (JStr ''registered''))"
proof -
  from assms(1,2) have "registration_request bi args r"
    by (simp add: registration_request_path)
  from upsert_after_gate [OF this assms(3,4,5)] show ?thesis .
qed

lemma ana_again_path: "registration_path demo_runtime ana_again_args"
  by code_simp

lemma ana_again_normal: "normalize (parseBody demo_runtime ana_again_args) = Inr ana_again"
  by code_simp

theorem upsert_patches_goal_or_creates_witness:
  "registration_path demo_runtime ana_again_args
   \<and> normalize (parseBody demo_runtime ana_again_args) = Inr ana_again
   \<and> validate (name ana_again) (email ana_again) (start_date ana_again) = []
   \<and> \<not> gate_full ana_again (store_of [seat ''ana-1'' ana ''paid''])
   \<and> fst (register_main demo_runtime ana_again_args (store_of [seat ''ana-1'' ana ''paid'']))
       = Inr \<lparr>statusCode = 200, headers = json_headers,
               body = Some (JObj [(''ok'', JBool True), (''pageId'', JStr ''ana-1''),
                                  (''updated'', JBool True),
                                  (''message'', JStr ''Updated existing registration'')])\<rparr>
   \<and> props (pages (snd (register_main demo_runtime ana_again_args
                          (store_of [seat ''ana-1'' ana ''paid'']))) ! 0) ''status''
       = Some (SelectP (JStr ''paid''))
   \<and> props (pages (snd (register_main demo_runtime ana_again_args
                          (store_of [seat ''ana-1'' ana ''paid'']))) ! 0) ''expectation''
       = Some (RichText (JStr ''build an app''))"
proof -
  let ?w = "store_of [seat ''ana-1'' ana ''paid'']"
  let ?f = "find_filter (email ana_again) (cohort ana_again) (start_date ana_again)"
  let ?w' = "snd (register_main demo_runtime ana_again_args ?w)"
  have v: "validate (name ana_again) (email ana_again) (start_date ana_again) = []"
    by code_simp
  have g: "\<not> gate_full ana_again ?w" by code_simp
  have a: "verdict ?w (Query ?f) = Accepted" by (simp add: store_of_def)
  have q: "run_query ?f ?w = [seat ''ana-1'' ana ''paid'']"
    by (simp add: run_query_def satisfies_def find_filter_def store_of_def seat_def payload_def
        ana_def ana_again_def)
  have p: "verdict ?w (Patch (pid (seat ''ana-1'' ana ''paid'')) (goal_patch (goal ana_again)))
           = Accepted"
    by (simp add: store_of_def)
  have pg: "pages ?w = [seat ''ana-1'' ana ''paid'']" by (simp add: store_of_def)
  note t = upsert_patches_goal_or_creates [OF ana_again_path ana_again_normal v g a,
      unfolded Let_def q list.case, THEN mp, OF p]
  from t have r: "fst (register_main demo_runtime ana_again_args ?w)
       = Inr \<lparr>statusCode = 200, headers = json_headers,
               body = Some (JObj [(''ok'', JBool True),
                                  (''pageId'', JStr (pid (seat ''ana-1'' ana ''paid''))),
                                  (''updated'', JBool True),
                                  (''message'', JStr ''Updated existing registration'')])\<rparr>"
    by (rule conjunct1)
  from t have "\<forall>i<length (pages ?w).
       pid (pages ?w' ! i) = pid (pages ?w ! i)
       \<and> (\<forall>k. k \<noteq> ''expectation'' \<longrightarrow> props (pages ?w' ! i) k = props (pages ?w ! i) k)
       \<and> props (pages ?w' ! i) ''expectation''
           = (if pid (pages ?w ! i) = pid (seat ''ana-1'' ana ''paid'')
              then Some (RichText (JStr (goal ana_again)))
              else props (pages ?w ! i) ''expectation'')"
    by (elim conjE)
  then have "props (pages ?w' ! 0) ''status'' = props (seat ''ana-1'' ana ''paid'') ''status''
     \<and> props (pages ?w' ! 0) ''expectation'' = Some (RichText (JStr (goal ana_again)))"
    by (simp add: pg)
  then have s: "props (pages ?w' ! 0) ''status'' = Some (SelectP (JStr ''paid''))"
    and e: "props (pages ?w' ! 0) ''expectation'' = Some (RichText (JStr ''build an app''))"
    by (simp_all add: seat_def ana_again_def)
  have i: "pid (seat ''ana-1'' ana ''paid'') = ''ana-1''" by (simp add: seat_def)
  show ?thesis using ana_again_path ana_again_normal v g r s e unfolding i by blast
qed

lemma validated_upsert_console:
  "\<exists>t. console (snd (validated_upsert bi r w)) = console w @ t"
  using upsert_console[of bi r w] by (simp add: validated_upsert_def Let_def)

text \<open>
  Claim C4. When the gate's query fails, the availability endpoint answers 500 with the
  error; the registration path answers exactly what validation and upsert answer on the
  same database without any check, leaves the database as they leave it, and has logged
  the failure.
\<close>

theorem gate_failure_policy:
  "(availability_request bi args checkAvail checkDate
      \<and> verdict w (Query (gate_filter checkAvail checkDate)) \<noteq> Accepted
    \<longrightarrow> (\<exists>resp e. fst (register_main bi args w) = Inr resp
                \<and> statusCode resp = 500
                \<and> body resp = Some (JObj [(''ok'', JBool False), (''error'', JStr e)])))
   \<and> (registration_request bi args r
        \<and> verdict w (Query (gate_filter (JStr (cohort r)) (JStr (start_date r)))) \<noteq> Accepted
      \<longrightarrow> fst (register_main bi args w) = Inr (fst (validated_upsert bi r w))
          \<and> pages (snd (register_main bi args w)) = pages (snd (validated_upsert bi r w))
          \<and> (\<exists>m t. console (snd (register_main bi args w))
                     = console w @ (''Availability check failed: '' @ m) # t))"
proof (intro conjI impI)
  assume h: "availability_request bi args checkAvail checkDate
      \<and> verdict w (Query (gate_filter checkAvail checkDate)) \<noteq> Accepted"
  then obtain e where "fst (checkCohortAvailability bi checkAvail checkDate w) = Inl e"
    by (cases "verdict w (Query (gate_filter checkAvail checkDate))") (simp_all add: gate_result)
  then have "fst (check_endpoint bi checkAvail checkDate w)
      = \<lparr>statusCode = 500, headers = json_headers,
         body = Some (JObj [(''ok'', JBool False), (''error'', JStr (message e))])\<rparr>"
    by (cases "checkCohortAvailability bi checkAvail checkDate w")
       (simp add: check_endpoint_def)
  moreover have "fst (register_main bi args w) = Inr (fst (check_endpoint bi checkAvail checkDate w))"
    using h
    by (cases "check_endpoint bi checkAvail checkDate w")
       (auto simp add: availability_request_def register_main_def Let_def)
  ultimately show "\<exists>resp e. fst (register_main bi args w) = Inr resp
                \<and> statusCode resp = 500
                \<and> body resp = Some (JObj [(''ok'', JBool False), (''error'', JStr e)])"
    by simp
next
  assume h: "registration_request bi args r
        \<and> verdict w (Query (gate_filter (JStr (cohort r)) (JStr (start_date r)))) \<noteq> Accepted"
  let ?q = "Query (gate_filter (JStr (cohort r)) (JStr (start_date r)))"
  have main: "register_main bi args w = (Inr (fst (register bi r w)), snd (register bi r w))"
    using h by (simp add: register_main_registration)
  have nf: "\<not> gate_full r w" using h by (simp add: gate_full_def)
  obtain m where reg: "register bi r w
      = validated_upsert bi r (logged (''Availability check failed: '' @ m) (sent ?q w))"
    using h nf by (simp add: register_cases Let_def)
  have same: "same_store (logged (''Availability check failed: '' @ m) (sent ?q w)) w"
    by simp
  show "fst (register_main bi args w) = Inr (fst (validated_upsert bi r w))"
    using validated_upsert_same[OF same] by (simp add: main reg)
  show "pages (snd (register_main bi args w)) = pages (snd (validated_upsert bi r w))"
    using validated_upsert_same[OF same] by (simp add: main reg)
  show "\<exists>m t. console (snd (register_main bi args w))
                     = console w @ (''Availability check failed: '' @ m) # t"
    using validated_upsert_console
            [of bi r "logged (''Availability check failed: '' @ m) (sent ?q w)"]
    by (auto simp add: main reg)
qed

lemma ana_request: "registration_request demo_runtime ana_args ana"
  by code_simp

theorem gate_failure_policy_witness:
  "availability_request demo_runtime check_args (JStr ''spring'') JUndefined
   \<and> verdict (gate_down []) (Query (gate_filter (JStr ''spring'') JUndefined)) \<noteq> Accepted
   \<and> registration_request demo_runtime ana_args ana
   \<and> verdict (gate_down []) (Query (gate_filter (JStr (cohort ana)) (JStr (start_date ana))))
       \<noteq> Accepted
   \<and> statusCode (projr (fst (register_main demo_runtime check_args (gate_down [])))) = 500
   \<and> fst (register_main demo_runtime ana_args (gate_down []))
       = Inr (fst (validated_upsert demo_runtime ana (gate_down [])))
   \<and> statusCode (fst (validated_upsert demo_runtime ana (gate_down []))) = 200"
proof -
  have a: "availability_request demo_runtime check_args (JStr ''spring'') JUndefined"
    by code_simp
  have b: "verdict (gate_down []) (Query (gate_filter (JStr ''spring'') JUndefined)) \<noteq> Accepted"
    by code_simp
  have c: "verdict (gate_down []) (Query (gate_filter (JStr (cohort ana)) (JStr (start_date ana))))
       \<noteq> Accepted"
    by code_simp
  have d: "statusCode (fst (validated_upsert demo_runtime ana (gate_down []))) = 200"
    by code_simp
  note t = gate_failure_policy [where bi = demo_runtime and args = check_args
      and checkAvail = "JStr ''spring''" and checkDate = JUndefined and w = "gate_down []"]
  note u = gate_failure_policy [where bi = demo_runtime and args = ana_args and r = ana
      and w = "gate_down []"]
  from t a b obtain resp where "fst (register_main demo_runtime check_args (gate_down [])) = Inr resp"
    and "statusCode resp = 500" by blast
  then have e: "statusCode (projr (fst (register_main demo_runtime check_args (gate_down [])))) = 500"
    by simp
  from u ana_request c have "fst (register_main demo_runtime ana_args (gate_down []))
       = Inr (fst (validated_upsert demo_runtime ana (gate_down [])))" by blast
  with a b c d e ana_request show ?thesis by blast
qed

section \<open>Properties of the payment webhook\<close>

lemma nullish_falsy: "nullish v \<Longrightarrow> \<not> truthy v"
  by (cases v) simp_all

lemma email_of_nullish: "nullish s \<Longrightarrow> email_of s = Inl TypeError"
  by (simp add: email_of_def js_and_def jmember_def nullish_falsy Let_def)

lemma webhook_main_completed:
  "completed_event bi args event \<Longrightarrow>
   webhook_main bi args w =
     (case email_of (session_of event) of
        Inl e \<Rightarrow> (Inl e, w)
      | Inr m \<Rightarrow>
          if \<not> truthy (paid_of (session_of event))
          then (Inr (ok [(''ignored'', JBool True), (''reason'', JStr ''not_paid'')]), w)
          else if \<not> truthy m
          then (Inr (bad 400 [(''error'', JStr ''No email in event'')]), w)
          else (Inr (fst (settle bi m w)), snd (settle bi m w)))"
  by (cases "settle bi (projr (email_of (session_of event))) w")
     (auto simp add: completed_event_def webhook_main_def Let_def split: sum.splits)

lemma stripe_webhook_main_completed:
  "completed_event bi args event \<Longrightarrow>
   stripe_webhook_main bi args w =
     (case email_of (session_of event) of
        Inl e \<Rightarrow> (Inl e, w)
      | Inr m \<Rightarrow>
          if \<not> truthy (paid_of (session_of event))
          then (Inr (ok [(''ignored'', JBool True), (''reason'', JStr ''not_paid'')]), w)
          else if \<not> truthy m
          then (Inr (bad 400 [(''error'', JStr ''No email in event'')]), w)
          else (case stripe_data bi (session_of event) of
                  Inl e \<Rightarrow> (Inl e, w)
                | Inr sd \<Rightarrow> (Inr (fst (settle_stripe bi sd m w)), snd (settle_stripe bi sd m w))))"
  by (auto simp add: completed_event_def stripe_webhook_main_def Let_def split: sum.splits prod.splits)

text \<open>
  Claim C9 as stated fails: when the data of the event is the number 0, \<open>data.object\<close> is
  undefined, yet the session is then 0, reading \<open>customer_email\<close> of it does not throw,
  and both entry points answer 200 with the reason \<open>not_paid\<close>.
\<close>

theorem falsy_data_counterexample:
  "jfield zero_data_args ''__ow_method'' = JStr ''post''
   \<and> parseEvent demo_runtime zero_data_args
       = JObj [(''type'', JStr ''checkout.session.completed''), (''data'', JNum 0)]
   \<and> jprop (jprop (parseEvent demo_runtime zero_data_args) ''data'') ''object'' = JUndefined
   \<and> fst (webhook_main demo_runtime zero_data_args (store_of []))
       = Inr (ok [(''ignored'', JBool True), (''reason'', JStr ''not_paid'')])
   \<and> fst (stripe_webhook_main demo_runtime zero_data_args (store_of []))
       = Inr (ok [(''ignored'', JBool True), (''reason'', JStr ''not_paid'')])"
  by code_simp

text \<open>
  Claim C9, amended. For a post request whose event is a checkout completion with the
  data field absent or null, or with truthy data whose \<open>object\<close> is null or undefined,
  both webhook entry points throw a TypeError at the unguarded read of
  \<open>session.customer_email\<close> and return no response.
\<close>

theorem missing_session_throws:
  assumes "completed_event bi args event"
    and "nullish (jprop event ''data'')
         \<or> (truthy (jprop event ''data'') \<and> nullish (jprop (jprop event ''data'') ''object''))"
  shows "webhook_main bi args w = (Inl TypeError, w)
       \<and> stripe_webhook_main bi args w = (Inl TypeError, w)"
proof -
  have "nullish (session_of event)"
    using assms(2) by (auto simp: session_of_def js_and_def nullish_falsy)
  then have "email_of (session_of event) = Inl TypeError"
    by (rule email_of_nullish)
  then show ?thesis
    by (simp add: webhook_main_completed[OF assms(1)] stripe_webhook_main_completed[OF assms(1)])
qed

theorem missing_session_throws_witness:
  "completed_event demo_runtime bodiless_args (JObj [(''type'', JStr ''checkout.session.completed'')])
   \<and> nullish (jprop (JObj [(''type'', JStr ''checkout.session.completed'')]) ''data'')
   \<and> completed_event demo_runtime objectless_args (JObj objectless_args)
   \<and> truthy (jprop (JObj objectless_args) ''data'')
   \<and> nullish (jprop (jprop (JObj objectless_args) ''data'') ''object'')
   \<and> fst (webhook_main demo_runtime bodiless_args (store_of [])) = Inl TypeError
   \<and> fst (stripe_webhook_main demo_runtime bodiless_args (store_of [])) = Inl TypeError
   \<and> fst (webhook_main demo_runtime objectless_args (store_of [])) = Inl TypeError
   \<and> fst (stripe_webhook_main demo_runtime objectless_args (store_of [])) = Inl TypeError"
proof -
  let ?e = "JObj [(''type'', JStr ''checkout.session.completed'')]"
  have a: "completed_event demo_runtime bodiless_args ?e" by code_simp
  have b: "nullish (jprop ?e ''data'')" by code_simp
  have c: "completed_event demo_runtime objectless_args (JObj objectless_args)" by code_simp
  have d: "truthy (jprop (JObj objectless_args) ''data'')
           \<and> nullish (jprop (jprop (JObj objectless_args) ''data'') ''object'')" by code_simp
  from b have b': "nullish (jprop ?e ''data'')
         \<or> (truthy (jprop ?e ''data'') \<and> nullish (jprop (jprop ?e ''data'') ''object''))" ..
  from d have d': "nullish (jprop (JObj objectless_args) ''data'')
         \<or> (truthy (jprop (JObj objectless_args) ''data'')
             \<and> nullish (jprop (jprop (JObj objectless_args) ''data'') ''object''))" ..
  show ?thesis
    using missing_session_throws [OF a b', of "store_of []"]
      missing_session_throws [OF c d', of "store_of []"] a b c d
    by simp
qed

lemma map_add_twice: "(f ++ g) ++ g = f ++ g"
  by (rule ext) (simp add: map_add_def split: option.splits)

lemma patch_all_apply:
  "patch_all I ps (apply_patch i ps p) = patch_all (insert i I) ps p"
  by (simp add: patch_all_def apply_patch_def map_add_twice)

lemma patch_all_empty: "map (patch_all {} ps) xs = xs"
  by (rule map_idI) (simp add: patch_all_def)

lemma after_patches_Nil: "after_patches ps [] w = w"
  by (simp add: after_patches_def patch_all_empty)

lemma after_patches_Cons:
  "after_patches ps is (run_patch i ps (sent (Patch i ps) w)) = after_patches ps (i # is) w"
  by (simp add: after_patches_def run_patch_def sent_def patch_all_apply)

lemma after_patches_fields [simp]:
  "trace (after_patches ps is w) = trace w @ map (\<lambda>i. Patch i ps) is"
  "pages (after_patches ps is w) = map (patch_all (set is) ps) (pages w)"
  "verdict (after_patches ps is w) = verdict w"
  "new_id (after_patches ps is w) = new_id w"
  "console (after_patches ps is w) = console w"
  by (simp_all add: after_patches_def)

lemma send_patch_accepted:
  "verdict w (Patch i ps) = Accepted \<Longrightarrow>
   send_patch bi i ps w = (Inr (), run_patch i ps (sent (Patch i ps) w))"
  by (simp add: send_patch_def Let_def)

lemma send_patch_refused:
  "verdict w (Patch i ps) \<noteq> Accepted \<Longrightarrow>
   \<exists>e. send_patch bi i ps w = (Inl e, sent (Patch i ps) w)"
  by (simp add: send_patch_def Let_def split: reply.splits)

lemma mark_all_accepted:
  "\<forall>p \<in> set ps. verdict w (Patch (pid p) paid_patch) = Accepted \<Longrightarrow>
   mark_all bi ps n w = (Inr (n + length ps), after_patches paid_patch (map pid ps) w)"
proof (induction ps arbitrary: n w)
  case Nil
  then show ?case by (simp add: after_patches_Nil)
next
  case (Cons p ps)
  let ?w = "run_patch (pid p) paid_patch (sent (Patch (pid p) paid_patch) w)"
  have "\<forall>q \<in> set ps. verdict ?w (Patch (pid q) paid_patch) = Accepted"
    using Cons.prems by simp
  from Cons.IH[OF this, of "n + 1"] Cons.prems show ?case
    by (simp add: markPaid_def send_patch_accepted after_patches_Cons)
qed

lemma mark_all_stripe_accepted:
  assumes "stripe_patch bi sd = Inr sp" and "stripe_link bi (sessionId sd) = Inr l"
  shows "\<forall>p \<in> set ps. verdict w (Patch (pid p) sp) = Accepted \<Longrightarrow>
   mark_all_stripe bi sd ps n acc w
     = (Inr (n + length ps,
             acc @ map (\<lambda>p. JObj [(''pageId'', JStr (pid p)), (''stripeLink'', JStr l)]) ps),
        after_patches sp (map pid ps) w)"
proof (induction ps arbitrary: n acc w)
  case Nil
  then show ?case by (simp add: after_patches_Nil)
next
  case (Cons p ps)
  let ?w = "run_patch (pid p) sp (sent (Patch (pid p) sp) w)"
  have "\<forall>q \<in> set ps. verdict ?w (Patch (pid q) sp) = Accepted"
    using Cons.prems by simp
  from Cons.IH[OF this, of "n + 1"] Cons.prems show ?case
    by (simp add: markPaidWithStripeInfo_def assms send_patch_accepted after_patches_Cons)
qed

lemma satisfies_email:
  "satisfies (email_filter m) = (\<lambda>p. props p ''email'' = Some (EmailP m))"
  by (rule ext) (simp add: satisfies_def email_filter_def)

lemma stripe_patch_keys:
  assumes "stripe_patch bi sd = Inr ps"
  shows "map_of ps ''status'' = Some (SelectP (JStr ''paid''))" and "map_of ps ''email'' = None"
  using assms
  by (auto simp: stripe_patch_def stripe_link_def split: if_splits sum.splits option.splits)

lemma find_pages_accepted:
  "verdict w (Query (email_filter m)) = Accepted \<Longrightarrow>
   findPagesByEmail bi m w
     = (Inr [p \<leftarrow> pages w. props p ''email'' = Some (EmailP m)], sent (Query (email_filter m)) w)"
  by (simp add: findPagesByEmail_def Let_def run_query_def satisfies_email)

lemma settle_accepted:
  assumes "verdict w (Query (email_filter m)) = Accepted"
    and "\<forall>p \<in> set [p \<leftarrow> pages w. props p ''email'' = Some (EmailP m)].
           verdict w (Patch (pid p) paid_patch) = Accepted"
  shows "settle bi m w =
     (let ms = [p \<leftarrow> pages w. props p ''email'' = Some (EmailP m)]
      in if ms = []
         then (ok [(''updated'', JNum 0), (''note'', JStr ''no_matching_email''), (''email'', m)],
               sent (Query (email_filter m)) w)
         else (ok [(''updated'', JNum (of_nat (length ms))), (''email'', m)],
               after_patches paid_patch (map pid ms) (sent (Query (email_filter m)) w)))"
proof -
  let ?ms = "[p \<leftarrow> pages w. props p ''email'' = Some (EmailP m)]"
  let ?w1 = "sent (Query (email_filter m)) w"
  have "\<forall>p \<in> set ?ms. verdict ?w1 (Patch (pid p) paid_patch) = Accepted"
    using assms(2) by simp
  from mark_all_accepted[OF this, of bi 0] show ?thesis
    by (simp add: settle_def find_pages_accepted[OF assms(1)] Let_def)
qed

lemma settle_stripe_accepted:
  assumes "verdict w (Query (email_filter m)) = Accepted"
    and "stripe_patch bi sd = Inr sp" and "stripe_link bi (sessionId sd) = Inr l"
    and "div100 bi (amountPaid sd) = Some a"
    and "\<forall>p \<in> set [p \<leftarrow> pages w. props p ''email'' = Some (EmailP m)].
           verdict w (Patch (pid p) sp) = Accepted"
  shows "settle_stripe bi sd m w =
     (let ms = [p \<leftarrow> pages w. props p ''email'' = Some (EmailP m)]
      in if ms = []
         then (ok [(''updated'', JNum 0), (''note'', JStr ''no_matching_email''), (''email'', m),
                   (''stripeSessionId'', sessionId sd)],
               sent (Query (email_filter m)) w)
         else (ok [(''updated'', JNum (of_nat (length ms))), (''email'', m),
                   (''stripeSessionId'', sessionId sd), (''stripeLink'', JStr l),
                   (''amountPaid'', JStr (CHR ''$'' # to_fixed2 bi a)),
                   (''pages'', JArr (map (\<lambda>p. JObj [(''pageId'', JStr (pid p)),
                                                   (''stripeLink'', JStr l)]) ms))],
               after_patches sp (map pid ms) (sent (Query (email_filter m)) w)))"
proof -
  let ?ms = "[p \<leftarrow> pages w. props p ''email'' = Some (EmailP m)]"
  let ?w1 = "sent (Query (email_filter m)) w"
  have "\<forall>p \<in> set ?ms. verdict ?w1 (Patch (pid p) sp) = Accepted"
    using assms(5) by simp
  from mark_all_stripe_accepted[OF assms(2,3) this, of 0 "[]"] show ?thesis
    by (simp add: settle_stripe_def find_pages_accepted[OF assms(1)] Let_def stripe_report_def
        assms(3,4))
qed




lemma paid_patch_keys:
  "map_of paid_patch ''status'' = Some (SelectP (JStr ''paid''))"
  "map_of paid_patch ''email'' = None"
  by (simp_all add: paid_patch_def)





lemma paid_data_patch_eq: "stripe_patch demo_runtime paid_data = Inr paid_data_patch"
  by code_simp

lemma paid_data_link:
  "stripe_link demo_runtime (sessionId paid_data)
     = Inr ''https://dashboard.stripe.com/payments/cs_1''"
  by code_simp

lemma paid_data_amount: "div100 demo_runtime (amountPaid paid_data) = Some (JNum 49)"
  by code_simp



section \<open>The status of a page\<close>

lemma advances_refl [simp]: "advances P w w"
  by (simp add: advances_def keeps_paid_def)

lemma advances_trans:
  assumes "advances P a b" and "advances P b c"
  shows "advances P a c"
proof -
  from assms obtain t u where "trace b = trace a @ t" "list_all P t"
    "trace c = trace b @ u" "list_all P u"
    by (auto simp: advances_def)
  then have "trace c = trace a @ (t @ u) \<and> list_all P (t @ u)" by simp
  moreover have "keeps_paid a c"
  proof -
    have ab: "keeps_paid a b" and bc: "keeps_paid b c"
      using assms by (simp_all add: advances_def)
    have len: "length (pages a) \<le> length (pages b)" "length (pages b) \<le> length (pages c)"
      using ab bc by (simp_all add: keeps_paid_def)
    have "pid (pages c ! i) = pid (pages a ! i)
          \<and> (props (pages a ! i) ''status'' = Some (SelectP (JStr ''paid''))
               \<longrightarrow> props (pages c ! i) ''status'' = Some (SelectP (JStr ''paid'')))"
      if i: "i < length (pages a)" for i
    proof -
      from i len have j: "i < length (pages b)" by simp
      from ab i have "pid (pages b ! i) = pid (pages a ! i)
          \<and> (props (pages a ! i) ''status'' = Some (SelectP (JStr ''paid''))
               \<longrightarrow> props (pages b ! i) ''status'' = Some (SelectP (JStr ''paid'')))"
        by (simp add: keeps_paid_def)
      moreover from bc j have "pid (pages c ! i) = pid (pages b ! i)
          \<and> (props (pages b ! i) ''status'' = Some (SelectP (JStr ''paid''))
               \<longrightarrow> props (pages c ! i) ''status'' = Some (SelectP (JStr ''paid'')))"
        by (simp add: keeps_paid_def)
      ultimately show ?thesis by simp
    qed
    with len show ?thesis by (simp add: keeps_paid_def)
  qed
  ultimately show ?thesis unfolding advances_def by blast
qed

lemma advances_sent: "P r \<Longrightarrow> advances P w (sent r w)"
  by (simp add: advances_def keeps_paid_def)

lemma advances_logged [simp]: "advances P w (logged l w)"
  by (simp add: advances_def keeps_paid_def)

lemma advances_patch:
  "map_of ps ''status'' = None \<or> map_of ps ''status'' = Some (SelectP (JStr ''paid'')) \<Longrightarrow>
   advances P w (run_patch i ps w)"
  by (auto simp add: advances_def keeps_paid_def apply_patch_def map_add_def)

lemma advances_create [simp]: "advances P w (run_create ps w)"
  by (simp add: advances_def keeps_paid_def nth_append)

lemma advances_sent_after: "advances P w v \<Longrightarrow> P r \<Longrightarrow> advances P w (sent r v)"
  by (erule advances_trans) (rule advances_sent)

lemma advances_logged_after: "advances P w v \<Longrightarrow> advances P w (logged l v)"
  by (erule advances_trans) simp

lemma advances_patch_after:
  "advances P w v \<Longrightarrow>
   map_of ps ''status'' = None \<or> map_of ps ''status'' = Some (SelectP (JStr ''paid'')) \<Longrightarrow>
   advances P w (run_patch i ps v)"
  by (erule advances_trans) (rule advances_patch)

lemma advances_create_after: "advances P w v \<Longrightarrow> advances P w (run_create ps v)"
  by (erule advances_trans) simp

lemma registration_writes:
  "registration_write (Query q)" "registration_write (Create (payload r))"
  "registration_write (Patch i (goal_patch g))"
  by (simp_all add: registration_write_def payload_def goal_patch_def)

lemma goal_patch_status: "map_of (goal_patch g) ''status'' = None"
  by (simp add: goal_patch_def)

lemma create_page_advances:
  "advances registration_write w v \<Longrightarrow> advances registration_write w (snd (create_page r v))"
  by (simp add: create_page_def Let_def advances_sent_after advances_create_after
      registration_writes split: reply.splits)

lemma upsert_advances:
  assumes "advances registration_write w v"
  shows "advances registration_write w (snd (upsert bi r v))"
  unfolding upsert_cases Let_def using assms
  by (auto split: list.splits
      intro!: create_page_advances advances_sent_after advances_logged_after
        advances_patch_after registration_writes goal_patch_status)

lemma validated_upsert_advances:
  "advances registration_write w v \<Longrightarrow>
   advances registration_write w (snd (validated_upsert bi r v))"
  by (simp add: validated_upsert_def Let_def upsert_advances)

lemma register_advances: "advances registration_write w (snd (register bi r w))"
  by (simp add: register_cases Let_def validated_upsert_advances advances_sent_after
      advances_logged_after registration_writes)

lemma check_endpoint_world:
  "snd (check_endpoint bi a d w) = sent (Query (gate_filter a d)) w"
  using gate_world [of bi a d w]
  by (cases "checkCohortAvailability bi a d w") (simp add: check_endpoint_def split: sum.splits)

lemma register_main_world:
  "snd (register_main bi args w) = w
   \<or> (\<exists>a d. snd (register_main bi args w) = sent (Query (gate_filter a d)) w)
   \<or> (\<exists>r. snd (register_main bi args w) = snd (register bi r w))"
  by (auto simp add: register_main_def Let_def case_prod_beta check_endpoint_world
      split: sum.splits)

lemma register_main_advances: "advances registration_write w (snd (register_main bi args w))"
  using register_main_world [of bi args w]
  by (elim disjE exE) (simp_all add: advances_sent registration_writes register_advances)

lemma send_patch_advances:
  assumes "advances P w v" and "P (Patch i ps)"
    and "map_of ps ''status'' = None \<or> map_of ps ''status'' = Some (SelectP (JStr ''paid''))"
  shows "advances P w (snd (send_patch bi i ps v))"
proof (cases "verdict v (Patch i ps) = Accepted")
  case True
  then show ?thesis using assms
    by (simp add: send_patch_accepted advances_patch_after advances_sent_after)
next
  case False
  from send_patch_refused [OF this, of bi] assms show ?thesis
    by (auto simp add: advances_sent_after)
qed

lemma payment_writes:
  "payment_write (Query q)" "payment_write (Patch i paid_patch)"
  "stripe_patch bi sd = Inr sp \<Longrightarrow> payment_write (Patch i sp)"
  by (simp_all add: payment_write_def paid_patch_keys stripe_patch_keys)

lemma markPaid_advances:
  "advances payment_write w v \<Longrightarrow> advances payment_write w (snd (markPaid bi i v))"
  unfolding markPaid_def
  by (rule send_patch_advances) (simp_all add: payment_writes paid_patch_keys)

lemma mark_all_advances:
  "advances payment_write w v \<Longrightarrow> advances payment_write w (snd (mark_all bi ps n v))"
proof (induction ps arbitrary: n v)
  case Nil
  then show ?case by simp
next
  case (Cons p ps)
  obtain x v' where m: "markPaid bi (pid p) v = (x, v')" by fastforce
  with markPaid_advances [OF Cons.prems, of bi "pid p"] have "advances payment_write w v'"
    by simp
  then show ?case using m Cons.IH by (cases x) simp_all
qed

lemma markPaidWithStripeInfo_advances:
  assumes "advances payment_write w v"
  shows "advances payment_write w (snd (markPaidWithStripeInfo bi i sd v))"
proof (cases "stripe_patch bi sd")
  case (Inl e)
  then show ?thesis using assms by (simp add: markPaidWithStripeInfo_def)
next
  case (Inr sp)
  then show ?thesis using assms
    by (simp add: markPaidWithStripeInfo_def send_patch_advances payment_writes
        stripe_patch_keys)
qed

lemma mark_all_stripe_advances:
  "advances payment_write w v \<Longrightarrow>
   advances payment_write w (snd (mark_all_stripe bi sd ps n acc v))"
proof (induction ps arbitrary: n acc v)
  case Nil
  then show ?case by simp
next
  case (Cons p ps)
  obtain x v' where m: "markPaidWithStripeInfo bi (pid p) sd v = (x, v')" by fastforce
  with markPaidWithStripeInfo_advances [OF Cons.prems, of bi "pid p" sd]
  have "advances payment_write w v'" by simp
  then show ?case using m Cons.IH by (cases x) (simp_all split: sum.splits)
qed

lemma find_pages_world:
  "snd (findPagesByEmail bi m w) = sent (Query (email_filter m)) w"
  by (simp add: findPagesByEmail_def Let_def split: reply.splits)

lemma settle_advances: "advances payment_write w (snd (settle bi m w))"
proof -
  obtain x where f: "findPagesByEmail bi m w = (x, sent (Query (email_filter m)) w)"
    using find_pages_world [of bi m w] by (cases "findPagesByEmail bi m w") simp
  have a: "advances payment_write w (sent (Query (email_filter m)) w)"
    by (simp add: advances_sent payment_writes)
  show ?thesis
  proof (cases x)
    case (Inl e)
    then show ?thesis using f a by (simp add: settle_def)
  next
    case (Inr ps)
    from mark_all_advances [OF a, of bi ps 0] show ?thesis using Inr f a
      by (cases "mark_all bi ps 0 (sent (Query (email_filter m)) w)")
         (simp add: settle_def split: sum.splits)
  qed
qed

lemma settle_stripe_advances: "advances payment_write w (snd (settle_stripe bi sd m w))"
proof -
  obtain x where f: "findPagesByEmail bi m w = (x, sent (Query (email_filter m)) w)"
    using find_pages_world [of bi m w] by (cases "findPagesByEmail bi m w") simp
  have a: "advances payment_write w (sent (Query (email_filter m)) w)"
    by (simp add: advances_sent payment_writes)
  show ?thesis
  proof (cases x)
    case (Inl e)
    then show ?thesis using f a by (simp add: settle_stripe_def)
  next
    case (Inr ps)
    from mark_all_stripe_advances [OF a, of bi sd ps 0 "[]"] show ?thesis using Inr f a
      by (cases "mark_all_stripe bi sd ps 0 [] (sent (Query (email_filter m)) w)")
         (simp add: settle_stripe_def split: sum.splits prod.splits)
  qed
qed

lemma webhook_main_world:
  "snd (webhook_main bi args w) = w
   \<or> (\<exists>m. snd (webhook_main bi args w) = snd (settle bi m w))"
  by (auto simp add: webhook_main_def Let_def case_prod_beta split: sum.splits)

lemma stripe_webhook_main_world:
  "snd (stripe_webhook_main bi args w) = w
   \<or> (\<exists>sd m. snd (stripe_webhook_main bi args w) = snd (settle_stripe bi sd m w))"
  by (auto simp add: stripe_webhook_main_def Let_def case_prod_beta split: sum.splits)

lemma create_and_report_world:
  "snd (create_and_report ps w) = sent (Create ps) w
   \<or> snd (create_and_report ps w) = run_create ps (sent (Create ps) w)"
  by (simp add: create_and_report_def Let_def split: reply.splits)

lemma create_and_report_advances:
  assumes "P (Create ps)"
  shows "advances P w (snd (create_and_report ps w))"
  using create_and_report_world [of ps w] assms
  by (auto simp add: advances_sent advances_create_after)

lemma simple_register_main_world:
  "snd (simple_register_main bi args w) = w
   \<or> (\<exists>r. snd (simple_register_main bi args w) = snd (create_and_report (payload r) w))"
  by (auto simp add: simple_register_main_def Let_def case_prod_beta split: sum.splits)

lemma class_register_main_world:
  "snd (class_register_main bi args w) = w
   \<or> (\<exists>n m d c. snd (class_register_main bi args w)
                   = snd (create_and_report (class_payload n m d c) w))"
  by (auto simp add: class_register_main_def Let_def case_prod_beta split: sum.splits)

lemma creation_writes:
  "creation_write (Create (payload r))" "creation_write (Create (class_payload n m d c))"
  by (simp_all add: creation_write_def payload_def class_payload_def)

lemma create_only_advances:
  "advances creation_write w (snd (simple_register_main bi args w))"
  "advances creation_write w (snd (class_register_main bi args w))"
  using simple_register_main_world [of bi args w] class_register_main_world [of bi args w]
  by (auto simp add: create_and_report_advances creation_writes)

text \<open>
  Claim C7. Whatever the request and the store's answers, the registration handler sends
  only queries, creations with status registered and patches that do not name the status;
  the two payment processors send only queries and patches that set the status to paid;
  the two create-only handlers send only a creation, with status registered or none;
  and after each handler every page that was there is still there, under its identifier,
  and is paid if it was paid.
\<close>

theorem status_never_reverts:
  "(\<exists>t. trace (snd (register_main bi args w)) = trace w @ t \<and> list_all registration_write t)
   \<and> keeps_paid w (snd (register_main bi args w))
   \<and> (\<exists>t. trace (snd (webhook_main bi args w)) = trace w @ t \<and> list_all payment_write t)
   \<and> keeps_paid w (snd (webhook_main bi args w))
   \<and> (\<exists>t. trace (snd (stripe_webhook_main bi args w)) = trace w @ t
           \<and> list_all payment_write t)
   \<and> keeps_paid w (snd (stripe_webhook_main bi args w))
   \<and> (\<exists>t. trace (snd (simple_register_main bi args w)) = trace w @ t
           \<and> list_all creation_write t)
   \<and> keeps_paid w (snd (simple_register_main bi args w))
   \<and> (\<exists>t. trace (snd (class_register_main bi args w)) = trace w @ t
           \<and> list_all creation_write t)
   \<and> keeps_paid w (snd (class_register_main bi args w))"
proof -
  have "advances registration_write w (snd (register_main bi args w))"
    by (rule register_main_advances)
  moreover have "advances payment_write w (snd (webhook_main bi args w))"
    using webhook_main_world [of bi args w] by (auto simp: settle_advances)
  moreover have "advances payment_write w (snd (stripe_webhook_main bi args w))"
    using stripe_webhook_main_world [of bi args w] by (auto simp: settle_stripe_advances)
  moreover note create_only_advances [of w bi args]
  ultimately show ?thesis unfolding advances_def by blast
qed

lemma send_patch_verdict [simp]: "verdict (snd (send_patch bi i ps w)) = verdict w"
  by (simp add: send_patch_def Let_def split: reply.splits)

lemma mark_all_success:
  "fst (mark_all bi ps n w) = Inr x \<Longrightarrow>
   \<forall>p \<in> set ps. verdict w (Patch (pid p) paid_patch) = Accepted"
proof (induction ps arbitrary: n w)
  case Nil
  then show ?case by simp
next
  case (Cons p ps)
  show ?case
  proof (cases "verdict w (Patch (pid p) paid_patch) = Accepted")
    case True
    let ?w = "run_patch (pid p) paid_patch (sent (Patch (pid p) paid_patch) w)"
    from Cons.prems True have "fst (mark_all bi ps (n + 1) ?w) = Inr x"
      by (simp add: markPaid_def send_patch_accepted)
    from Cons.IH [OF this] True show ?thesis by simp
  next
    case False
    from send_patch_refused [OF this, of bi] Cons.prems show ?thesis
      by (auto simp: markPaid_def)
  qed
qed

lemma mark_all_stripe_success:
  "fst (mark_all_stripe bi sd ps n acc w) = Inr x \<Longrightarrow> ps \<noteq> [] \<Longrightarrow>
   \<exists>sp l. stripe_patch bi sd = Inr sp \<and> stripe_link bi (sessionId sd) = Inr l
          \<and> (\<forall>p \<in> set ps. verdict w (Patch (pid p) sp) = Accepted)"
proof (induction ps arbitrary: n acc w)
  case Nil
  then show ?case by simp
next
  case (Cons p ps)
  from Cons.prems(1) obtain sp where sp: "stripe_patch bi sd = Inr sp"
    by (cases "stripe_patch bi sd") (simp_all add: markPaidWithStripeInfo_def)
  have acc: "verdict w (Patch (pid p) sp) = Accepted"
  proof (rule ccontr)
    assume "verdict w (Patch (pid p) sp) \<noteq> Accepted"
    from send_patch_refused [OF this, of bi] Cons.prems(1) sp show False
      by (auto simp: markPaidWithStripeInfo_def)
  qed
  let ?w = "run_patch (pid p) sp (sent (Patch (pid p) sp) w)"
  from Cons.prems(1) sp acc obtain l where l: "stripe_link bi (sessionId sd) = Inr l"
    by (cases "stripe_link bi (sessionId sd)")
       (simp_all add: markPaidWithStripeInfo_def send_patch_accepted)
  show ?case
  proof (cases "ps = []")
    case True
    then show ?thesis using sp l acc by simp
  next
    case False
    from Cons.prems(1) sp acc l
    have "fst (mark_all_stripe bi sd ps (n + 1)
                 (acc @ [JObj [(''pageId'', JStr (pid p)), (''stripeLink'', JStr l)]]) ?w) = Inr x"
      by (simp add: markPaidWithStripeInfo_def send_patch_accepted)
    from Cons.IH [OF this False] sp l acc show ?thesis by simp
  qed
qed

lemma find_pages_refused:
  "verdict w (Query (email_filter m)) \<noteq> Accepted \<Longrightarrow>
   \<exists>e. findPagesByEmail bi m w = (Inl e, sent (Query (email_filter m)) w)"
  by (simp add: findPagesByEmail_def Let_def split: reply.splits)

lemma bad_status [simp]: "statusCode (bad n b) = n"
  by (simp add: bad_def)

lemma ok_status [simp]: "statusCode (ok b) = 200"
  by (simp add: ok_def)

lemma settle_succeeds:
  assumes "statusCode (fst (settle bi m w)) = 200"
  shows "verdict w (Query (email_filter m)) = Accepted
       \<and> (\<forall>p \<in> set [p \<leftarrow> pages w. props p ''email'' = Some (EmailP m)].
             verdict w (Patch (pid p) paid_patch) = Accepted)"
proof -
  let ?q = "Query (email_filter m)"
  let ?ms = "[p \<leftarrow> pages w. props p ''email'' = Some (EmailP m)]"
  have q: "verdict w ?q = Accepted"
  proof (rule ccontr)
    assume "verdict w ?q \<noteq> Accepted"
    from find_pages_refused [OF this, of bi] assms show False
      by (auto simp: settle_def)
  qed
  have "\<forall>p \<in> set ?ms. verdict (sent ?q w) (Patch (pid p) paid_patch) = Accepted"
  proof (cases "mark_all bi ?ms 0 (sent ?q w)")
    case (Pair x v)
    show ?thesis
    proof (cases x)
      case (Inl e)
      with Pair assms q show ?thesis
        by (simp add: settle_def find_pages_accepted split: if_splits)
    next
      case (Inr n)
      with Pair have "fst (mark_all bi ?ms 0 (sent ?q w)) = Inr n" by simp
      then show ?thesis by (rule mark_all_success)
    qed
  qed
  with q show ?thesis by simp
qed

lemma settle_stripe_succeeds:
  assumes "statusCode (fst (settle_stripe bi sd m w)) = 200"
  shows "verdict w (Query (email_filter m)) = Accepted
       \<and> ([p \<leftarrow> pages w. props p ''email'' = Some (EmailP m)] = []
          \<or> (\<exists>sp l a. stripe_patch bi sd = Inr sp \<and> stripe_link bi (sessionId sd) = Inr l
                \<and> div100 bi (amountPaid sd) = Some a
                \<and> (\<forall>p \<in> set [p \<leftarrow> pages w. props p ''email'' = Some (EmailP m)].
                      verdict w (Patch (pid p) sp) = Accepted)))"
proof -
  let ?q = "Query (email_filter m)"
  let ?ms = "[p \<leftarrow> pages w. props p ''email'' = Some (EmailP m)]"
  have q: "verdict w ?q = Accepted"
  proof (rule ccontr)
    assume "verdict w ?q \<noteq> Accepted"
    from find_pages_refused [OF this, of bi] assms show False
      by (auto simp: settle_stripe_def)
  qed
  show ?thesis
  proof (cases "?ms = []")
    case True
    with q show ?thesis by simp
  next
    case False
    obtain x v where mk: "mark_all_stripe bi sd ?ms 0 [] (sent ?q w) = (x, v)" by fastforce
    show ?thesis
    proof (cases x)
      case (Inl e)
      with mk assms q False show ?thesis
        by (simp add: settle_stripe_def find_pages_accepted)
    next
      case (Inr r)
      with mk have "fst (mark_all_stripe bi sd ?ms 0 [] (sent ?q w)) = Inr r" by simp
      from mark_all_stripe_success [OF this False] obtain sp l where
        sp: "stripe_patch bi sd = Inr sp" and l: "stripe_link bi (sessionId sd) = Inr l"
        and acc: "\<forall>p \<in> set ?ms. verdict w (Patch (pid p) sp) = Accepted"
        by auto
      obtain a where "div100 bi (amountPaid sd) = Some a"
        using assms q False mk Inr l
        by (cases "div100 bi (amountPaid sd)")
           (simp_all add: settle_stripe_def find_pages_accepted stripe_report_def
             split: prod.splits)
      with sp l acc q show ?thesis by blast
    qed
  qed
qed

lemma patch_all_again: "patch_all I ps (patch_all I ps p) = patch_all I ps p"
  by (simp add: patch_all_def map_add_twice)

lemma patch_all_pid [simp]: "pid (patch_all I ps p) = pid p"
  by (simp add: patch_all_def)

lemma patch_all_email:
  "map_of ps ''email'' = None \<Longrightarrow> props (patch_all I ps p) ''email'' = props p ''email''"
  by (simp add: patch_all_def map_add_def)

lemma matches_after_patches:
  assumes "map_of ps ''email'' = None"
  shows "[p \<leftarrow> map (patch_all I ps) xs. props p ''email'' = Some e]
         = map (patch_all I ps) [p \<leftarrow> xs. props p ''email'' = Some e]"
  by (induction xs) (simp_all add: patch_all_email [OF assms])

text \<open>What a second delivery does after a first one that patched the matching pages.\<close>

lemma redelivery_world:
  assumes e: "map_of ps ''email'' = None"
    and w1: "w1 = after_patches ps (map pid ms) (sent q w)"
    and ms: "ms = [p \<leftarrow> pages w. props p ''email'' = Some (EmailP m)]"
  shows "map pid [p \<leftarrow> pages w1. props p ''email'' = Some (EmailP m)] = map pid ms"
    and "pages (after_patches ps (map pid ms) (sent q w1)) = pages w1"
    and "trace (after_patches ps (map pid ms) (sent q w1))
           = trace w1 @ drop (length (trace w)) (trace w1)"
proof -
  show "map pid [p \<leftarrow> pages w1. props p ''email'' = Some (EmailP m)] = map pid ms"
    by (simp add: w1 matches_after_patches [OF e] ms comp_def)
  show "pages (after_patches ps (map pid ms) (sent q w1)) = pages w1"
    by (simp add: w1 comp_def patch_all_again)
  show "trace (after_patches ps (map pid ms) (sent q w1))
           = trace w1 @ drop (length (trace w)) (trace w1)"
    by (simp add: w1)
qed

lemma settle_twice:
  assumes "statusCode (fst (settle bi m w)) = 200"
  shows "fst (settle bi m (snd (settle bi m w))) = fst (settle bi m w)
       \<and> pages (snd (settle bi m (snd (settle bi m w)))) = pages (snd (settle bi m w))
       \<and> trace (snd (settle bi m (snd (settle bi m w))))
           = trace (snd (settle bi m w)) @ drop (length (trace w)) (trace (snd (settle bi m w)))"
proof -
  let ?q = "Query (email_filter m)"
  let ?ms = "[p \<leftarrow> pages w. props p ''email'' = Some (EmailP m)]"
  from settle_succeeds [OF assms] have q: "verdict w ?q = Accepted"
    and acc: "\<forall>p \<in> set ?ms. verdict w (Patch (pid p) paid_patch) = Accepted"
    by simp_all
  note first = settle_accepted [OF q acc, of bi, unfolded Let_def]
  show ?thesis
  proof (cases "?ms = []")
    case True
    let ?w1 = "sent ?q w"
    have s1: "settle bi m w
        = (ok [(''updated'', JNum 0), (''note'', JStr ''no_matching_email''), (''email'', m)], ?w1)"
      using first True by simp
    have q1: "verdict ?w1 ?q = Accepted" using q by simp
    have ms1: "[p \<leftarrow> pages ?w1. props p ''email'' = Some (EmailP m)] = []"
      using True by simp
    have acc1: "\<forall>p \<in> set [p \<leftarrow> pages ?w1. props p ''email'' = Some (EmailP m)].
                  verdict ?w1 (Patch (pid p) paid_patch) = Accepted"
      unfolding ms1 by simp
    from settle_accepted [OF q1 acc1, of bi, unfolded Let_def ms1]
    show ?thesis by (simp add: s1)
  next
    case False
    define ms where "ms = ?ms"
    define w1 where "w1 = after_patches paid_patch (map pid ms) (sent ?q w)"
    define ms1 where "ms1 = [p \<leftarrow> pages w1. props p ''email'' = Some (EmailP m)]"
    have s1: "settle bi m w
        = (ok [(''updated'', JNum (of_nat (length ms))), (''email'', m)], w1)"
      using first False by (simp add: ms_def w1_def)
    note r = redelivery_world [OF paid_patch_keys(2) w1_def ms_def]
    have q1: "verdict w1 ?q = Accepted" using q by (simp add: w1_def)
    have ids: "map pid ms1 = map pid ms" unfolding ms1_def by (rule r(1))
    then have len: "length ms1 = length ms" by (metis length_map)
    with False have ne: "ms1 \<noteq> []" unfolding ms_def by (metis length_0_conv)
    have "verdict w1 (Patch (pid p) paid_patch) = Accepted" if "p \<in> set ms1" for p
    proof -
      from that have "pid p \<in> set (map pid ms1)" by simp
      then obtain p0 where "p0 \<in> set ms" "pid p0 = pid p" unfolding ids by auto
      with acc show ?thesis by (auto simp add: w1_def ms_def)
    qed
    then have acc1: "\<forall>p \<in> set [p \<leftarrow> pages w1. props p ''email'' = Some (EmailP m)].
                       verdict w1 (Patch (pid p) paid_patch) = Accepted"
      unfolding ms1_def by blast
    from settle_accepted [OF q1 acc1, of bi, unfolded Let_def, folded ms1_def]
    have s2: "settle bi m w1
        = (ok [(''updated'', JNum (of_nat (length ms))), (''email'', m)],
           after_patches paid_patch (map pid ms) (sent ?q w1))"
      using ne by (simp only: if_False len ids)
    show ?thesis unfolding s1 snd_conv fst_conv s2 using r(2,3) by simp
  qed
qed

lemma map_through_pid:
  assumes "map pid xs = map pid ys"
  shows "map (\<lambda>p. g (pid p)) xs = map (\<lambda>p. g (pid p)) ys"
proof -
  have "map (\<lambda>p. g (pid p)) zs = map g (map pid zs)" for zs
    by (simp add: comp_def)
  then show ?thesis by (metis assms)
qed

lemma settle_stripe_twice:
  assumes "statusCode (fst (settle_stripe bi sd m w)) = 200"
  shows "fst (settle_stripe bi sd m (snd (settle_stripe bi sd m w))) = fst (settle_stripe bi sd m w)
       \<and> pages (snd (settle_stripe bi sd m (snd (settle_stripe bi sd m w))))
           = pages (snd (settle_stripe bi sd m w))
       \<and> trace (snd (settle_stripe bi sd m (snd (settle_stripe bi sd m w))))
           = trace (snd (settle_stripe bi sd m w))
             @ drop (length (trace w)) (trace (snd (settle_stripe bi sd m w)))"
proof -
  let ?q = "Query (email_filter m)"
  let ?ms = "[p \<leftarrow> pages w. props p ''email'' = Some (EmailP m)]"
  from settle_stripe_succeeds [OF assms] have q: "verdict w ?q = Accepted"
    and rest: "?ms = [] \<or> (\<exists>sp l a. stripe_patch bi sd = Inr sp
                \<and> stripe_link bi (sessionId sd) = Inr l
                \<and> div100 bi (amountPaid sd) = Some a
                \<and> (\<forall>p \<in> set ?ms. verdict w (Patch (pid p) sp) = Accepted))"
    by simp_all
  have f: "findPagesByEmail bi m v = (Inr [p \<leftarrow> pages v. props p ''email'' = Some (EmailP m)],
                                      sent ?q v)" if "verdict v ?q = Accepted" for v
    using that by (rule find_pages_accepted)
  show ?thesis
  proof (cases "?ms = []")
    case True
    let ?w1 = "sent ?q w"
    have s1: "settle_stripe bi sd m w
        = (ok [(''updated'', JNum 0), (''note'', JStr ''no_matching_email''), (''email'', m),
               (''stripeSessionId'', sessionId sd)], ?w1)"
      using True by (simp add: settle_stripe_def f [OF q])
    have q1: "verdict ?w1 ?q = Accepted" using q by simp
    have "settle_stripe bi sd m ?w1
        = (ok [(''updated'', JNum 0), (''note'', JStr ''no_matching_email''), (''email'', m),
               (''stripeSessionId'', sessionId sd)], sent ?q ?w1)"
      using True by (simp add: settle_stripe_def f [OF q1])
    then show ?thesis by (simp add: s1)
  next
    case False
    with rest obtain sp l a where sp: "stripe_patch bi sd = Inr sp"
      and l: "stripe_link bi (sessionId sd) = Inr l"
      and a: "div100 bi (amountPaid sd) = Some a"
      and acc: "\<forall>p \<in> set ?ms. verdict w (Patch (pid p) sp) = Accepted"
      by blast
    note first = settle_stripe_accepted [OF q sp l a acc, unfolded Let_def]
    define ms where "ms = ?ms"
    define w1 where "w1 = after_patches sp (map pid ms) (sent ?q w)"
    define ms1 where "ms1 = [p \<leftarrow> pages w1. props p ''email'' = Some (EmailP m)]"
    define report where "report = (\<lambda>xs::page list.
        ok [(''updated'', JNum (of_nat (length xs))), (''email'', m),
            (''stripeSessionId'', sessionId sd), (''stripeLink'', JStr l),
            (''amountPaid'', JStr (CHR ''$'' # to_fixed2 bi a)),
            (''pages'', JArr (map (\<lambda>p. JObj [(''pageId'', JStr (pid p)),
                                            (''stripeLink'', JStr l)]) xs))])"
    have rep: "report xs = report ys" if "map pid xs = map pid ys" for xs ys
    proof -
      from that have "length xs = length ys" by (metis length_map)
      moreover from that
      have "map (\<lambda>p. JObj [(''pageId'', JStr (pid p)), (''stripeLink'', JStr l)]) xs
          = map (\<lambda>p. JObj [(''pageId'', JStr (pid p)), (''stripeLink'', JStr l)]) ys"
        by (rule map_through_pid)
      ultimately show ?thesis by (simp add: report_def)
    qed
    have s1: "settle_stripe bi sd m w = (report ms, w1)"
      using first False by (simp add: ms_def w1_def report_def)
    note r = redelivery_world [OF stripe_patch_keys(2) [OF sp] w1_def ms_def]
    have q1: "verdict w1 ?q = Accepted" using q by (simp add: w1_def)
    have ids: "map pid ms1 = map pid ms" unfolding ms1_def by (rule r(1))
    then have len: "length ms1 = length ms" by (metis length_map)
    with False have ne: "ms1 \<noteq> []" unfolding ms_def by (metis length_0_conv)
    have "verdict w1 (Patch (pid p) sp) = Accepted" if "p \<in> set ms1" for p
    proof -
      from that have "pid p \<in> set (map pid ms1)" by simp
      then obtain p0 where "p0 \<in> set ms" "pid p0 = pid p" unfolding ids by auto
      with acc show ?thesis by (auto simp add: w1_def ms_def)
    qed
    then have acc1: "\<forall>p \<in> set [p \<leftarrow> pages w1. props p ''email'' = Some (EmailP m)].
                       verdict w1 (Patch (pid p) sp) = Accepted"
      unfolding ms1_def by blast
    from settle_stripe_accepted [OF q1 sp l a acc1, unfolded Let_def, folded ms1_def]
    have "settle_stripe bi sd m w1
        = (report ms1, after_patches sp (map pid ms1) (sent ?q w1))"
      using ne by (simp add: report_def)
    then have s2: "settle_stripe bi sd m w1
        = (report ms, after_patches sp (map pid ms) (sent ?q w1))"
      using rep [OF ids] ids by simp
    show ?thesis unfolding s1 snd_conv fst_conv s2 using r(2,3) by simp
  qed
qed

lemma webhook_main_early:
  "\<not> completed_event bi args (parseEvent bi args) \<Longrightarrow>
   webhook_main bi args w = (Inr (early_answer bi args), w)"
  by (simp add: webhook_main_def completed_event_def early_answer_def Let_def)

lemma stripe_webhook_main_early:
  "\<not> completed_event bi args (parseEvent bi args) \<Longrightarrow>
   stripe_webhook_main bi args w = (Inr (early_answer bi args), w)"
  by (simp add: stripe_webhook_main_def completed_event_def early_answer_def Let_def)

lemma webhook_main_shape:
  "(\<exists>x. \<forall>w. webhook_main bi args w = (x, w))
   \<or> (\<exists>m. \<forall>w. webhook_main bi args w = (Inr (fst (settle bi m w)), snd (settle bi m w)))"
proof (cases "completed_event bi args (parseEvent bi args)")
  case False
  then show ?thesis by (simp add: webhook_main_early)
next
  case True
  note c = webhook_main_completed [OF True]
  show ?thesis
  proof (cases "email_of (session_of (parseEvent bi args))")
    case (Inl e)
    then show ?thesis by (simp add: c)
  next
    case (Inr m)
    show ?thesis
    proof (cases "truthy (paid_of (session_of (parseEvent bi args))) \<and> truthy m")
      case True
      then have "\<forall>w. webhook_main bi args w = (Inr (fst (settle bi m w)), snd (settle bi m w))"
        using Inr by (simp add: c)
      then show ?thesis by blast
    next
      case False
      then have "\<exists>x. \<forall>w. webhook_main bi args w = (x, w)"
        using Inr by (auto simp add: c)
      then show ?thesis by blast
    qed
  qed
qed

lemma stripe_webhook_main_shape:
  "(\<exists>x. \<forall>w. stripe_webhook_main bi args w = (x, w))
   \<or> (\<exists>sd m. \<forall>w. stripe_webhook_main bi args w
                      = (Inr (fst (settle_stripe bi sd m w)), snd (settle_stripe bi sd m w)))"
proof (cases "completed_event bi args (parseEvent bi args)")
  case False
  then show ?thesis by (simp add: stripe_webhook_main_early)
next
  case True
  note c = stripe_webhook_main_completed [OF True]
  show ?thesis
  proof (cases "email_of (session_of (parseEvent bi args))")
    case (Inl e)
    then show ?thesis by (simp add: c)
  next
    case (Inr m)
    show ?thesis
    proof (cases "truthy (paid_of (session_of (parseEvent bi args))) \<and> truthy m")
      case True
      show ?thesis
      proof (cases "stripe_data bi (session_of (parseEvent bi args))")
        case (Inl e)
        then have "\<exists>x. \<forall>w. stripe_webhook_main bi args w = (x, w)"
          using Inr True by (simp add: c)
        then show ?thesis by blast
      next
        case sd: (Inr sd)
        then have "\<forall>w. stripe_webhook_main bi args w
                      = (Inr (fst (settle_stripe bi sd m w)), snd (settle_stripe bi sd m w))"
          using Inr True by (simp add: c)
        then show ?thesis by blast
      qed
    next
      case False
      then have "\<exists>x. \<forall>w. stripe_webhook_main bi args w = (x, w)"
        using Inr by (auto simp add: c)
      then show ?thesis by blast
    qed
  qed
qed

text \<open>
  Claim C8. When a delivery of an event is answered 200, delivering the same event again
  to the resulting store is answered with the same response, sends the same requests (the
  same patches with the same property values) and leaves the pages as the first delivery
  left them. This holds for both processors.
\<close>

theorem redelivery_repeats_first_delivery:
  "(\<forall>resp. fst (webhook_main bi args w) = Inr resp \<and> statusCode resp = 200 \<longrightarrow>
      (let w1 = snd (webhook_main bi args w); out2 = webhook_main bi args w1
       in fst out2 = Inr resp
          \<and> pages (snd out2) = pages w1
          \<and> drop (length (trace w1)) (trace (snd out2)) = drop (length (trace w)) (trace w1)))
   \<and> (\<forall>resp. fst (stripe_webhook_main bi args w) = Inr resp \<and> statusCode resp = 200 \<longrightarrow>
      (let w1 = snd (stripe_webhook_main bi args w); out2 = stripe_webhook_main bi args w1
       in fst out2 = Inr resp
          \<and> pages (snd out2) = pages w1
          \<and> drop (length (trace w1)) (trace (snd out2)) = drop (length (trace w)) (trace w1)))"
proof (intro conjI allI impI)
  fix resp
  assume h: "fst (webhook_main bi args w) = Inr resp \<and> statusCode resp = 200"
  from webhook_main_shape [of bi args]
  show "let w1 = snd (webhook_main bi args w); out2 = webhook_main bi args w1
        in fst out2 = Inr resp \<and> pages (snd out2) = pages w1
           \<and> drop (length (trace w1)) (trace (snd out2)) = drop (length (trace w)) (trace w1)"
  proof (elim disjE exE)
    fix x assume "\<forall>w. webhook_main bi args w = (x, w)"
    with h show ?thesis by (simp add: Let_def)
  next
    fix m assume s: "\<forall>w. webhook_main bi args w = (Inr (fst (settle bi m w)), snd (settle bi m w))"
    with h have "statusCode (fst (settle bi m w)) = 200" and "resp = fst (settle bi m w)"
      by auto
    from settle_twice [OF this(1)] this(2) show ?thesis
      by (simp add: s Let_def)
  qed
next
  fix resp
  assume h: "fst (stripe_webhook_main bi args w) = Inr resp \<and> statusCode resp = 200"
  from stripe_webhook_main_shape [of bi args]
  show "let w1 = snd (stripe_webhook_main bi args w); out2 = stripe_webhook_main bi args w1
        in fst out2 = Inr resp \<and> pages (snd out2) = pages w1
           \<and> drop (length (trace w1)) (trace (snd out2)) = drop (length (trace w)) (trace w1)"
  proof (elim disjE exE)
    fix x assume "\<forall>w. stripe_webhook_main bi args w = (x, w)"
    with h show ?thesis by (simp add: Let_def)
  next
    fix sd m
    assume s: "\<forall>w. stripe_webhook_main bi args w
                 = (Inr (fst (settle_stripe bi sd m w)), snd (settle_stripe bi sd m w))"
    with h have "statusCode (fst (settle_stripe bi sd m w)) = 200"
      and "resp = fst (settle_stripe bi sd m w)"
      by auto
    from settle_stripe_twice [OF this(1)] this(2) show ?thesis
      by (simp add: s Let_def)
  qed
qed

theorem status_never_reverts_witness:
  "props (pages ana_paid_store ! 0) ''status'' = Some (SelectP (JStr ''paid''))
   \<and> props (pages (snd (register_main demo_runtime ana_again_args ana_paid_store)) ! 0) ''status''
       = Some (SelectP (JStr ''paid''))
   \<and> props (pages (snd (webhook_main demo_runtime paid_args ana_paid_store)) ! 0) ''status''
       = Some (SelectP (JStr ''paid''))
   \<and> props (pages (snd (stripe_webhook_main demo_runtime paid_args ana_paid_store)) ! 0) ''status''
       = Some (SelectP (JStr ''paid''))
   \<and> trace (snd (register_main demo_runtime ana_again_args ana_paid_store))
       = [Query (gate_filter (JStr ''spring'') (JStr ''2024-03-01'')),
          Query (find_filter ''ana@x.com'' ''spring'' ''2024-03-01''),
          Patch ''ana-1'' (goal_patch ''build an app'')]"
proof -
  have p: "props (pages ana_paid_store ! 0) ''status'' = Some (SelectP (JStr ''paid''))"
    and n: "0 < length (pages ana_paid_store)"
    by (simp_all add: ana_paid_store_def store_of_def seat_def)
  have k: "props (pages v ! 0) ''status'' = Some (SelectP (JStr ''paid''))"
    if "keeps_paid ana_paid_store v" for v
    using that p n unfolding keeps_paid_def by blast
  note a = status_never_reverts [of demo_runtime ana_again_args ana_paid_store]
  note b = status_never_reverts [of demo_runtime paid_args ana_paid_store]
  from a have "keeps_paid ana_paid_store
                 (snd (register_main demo_runtime ana_again_args ana_paid_store))"
    by blast
  note k1 = k [OF this]
  from b have "keeps_paid ana_paid_store (snd (webhook_main demo_runtime paid_args ana_paid_store))"
    by blast
  note k2 = k [OF this]
  from b have "keeps_paid ana_paid_store
                 (snd (stripe_webhook_main demo_runtime paid_args ana_paid_store))"
    by blast
  note k3 = k [OF this]
  have t: "trace (snd (register_main demo_runtime ana_again_args ana_paid_store))
       = [Query (gate_filter (JStr ''spring'') (JStr ''2024-03-01'')),
          Query (find_filter ''ana@x.com'' ''spring'' ''2024-03-01''),
          Patch ''ana-1'' (goal_patch ''build an app'')]"
    by code_simp
  from p k1 k2 k3 t show ?thesis by blast
qed

theorem redelivery_repeats_first_delivery_witness:
  "fst (webhook_main demo_runtime paid_args ana_registered_store)
     = Inr (ok [(''updated'', JNum 1), (''email'', JStr ''ana@x.com'')])
   \<and> statusCode (ok [(''updated'', JNum 1), (''email'', JStr ''ana@x.com'')]) = 200
   \<and> fst (webhook_main demo_runtime paid_args
            (snd (webhook_main demo_runtime paid_args ana_registered_store)))
       = Inr (ok [(''updated'', JNum 1), (''email'', JStr ''ana@x.com'')])
   \<and> pages (snd (webhook_main demo_runtime paid_args
                    (snd (webhook_main demo_runtime paid_args ana_registered_store))))
       = pages (snd (webhook_main demo_runtime paid_args ana_registered_store))
   \<and> props (pages (snd (webhook_main demo_runtime paid_args ana_registered_store)) ! 0) ''status''
       = Some (SelectP (JStr ''paid''))
   \<and> statusCode (projr (fst (stripe_webhook_main demo_runtime paid_args
            (snd (stripe_webhook_main demo_runtime paid_args ana_registered_store))))) = 200"
proof -
  let ?r = "ok [(''updated'', JNum 1), (''email'', JStr ''ana@x.com'')]"
  have f: "fst (webhook_main demo_runtime paid_args ana_registered_store) = Inr ?r"
    by code_simp
  have s: "statusCode ?r = 200" by simp
  have st: "props (pages (snd (webhook_main demo_runtime paid_args ana_registered_store)) ! 0)
              ''status'' = Some (SelectP (JStr ''paid''))"
    by code_simp
  note t = redelivery_repeats_first_delivery [of demo_runtime paid_args ana_registered_store,
      THEN conjunct1, THEN spec, THEN mp, OF conjI [OF f s], unfolded Let_def]
  note u = redelivery_repeats_first_delivery [of demo_runtime paid_args ana_registered_store,
      THEN conjunct2, THEN spec, THEN mp, unfolded Let_def]
  have g: "fst (stripe_webhook_main demo_runtime paid_args ana_registered_store)
           = Inr (projr (fst (stripe_webhook_main demo_runtime paid_args ana_registered_store)))
         \<and> statusCode (projr (fst (stripe_webhook_main demo_runtime paid_args
                                      ana_registered_store))) = 200"
    by code_simp
  from u [OF g] have "fst (stripe_webhook_main demo_runtime paid_args
            (snd (stripe_webhook_main demo_runtime paid_args ana_registered_store)))
       = Inr (projr (fst (stripe_webhook_main demo_runtime paid_args ana_registered_store)))"
    by (rule conjunct1)
  with g have c: "statusCode (projr (fst (stripe_webhook_main demo_runtime paid_args
            (snd (stripe_webhook_main demo_runtime paid_args ana_registered_store))))) = 200"
    by simp
  from f s t st c show ?thesis by blast
qed

section \<open>The two payment processors compared\<close>

text \<open>
  Claim C10 as stated fails: on a database without the Stripe properties the second
  processor answers a paid event 502, the minimal one answers it 200.
\<close>

theorem processors_differ_counterexample:
  "fst (stripe_webhook_main demo_runtime paid_args
          (status_only_store [seat ''ana-1'' ana ''registered'']))
     = Inr (bad 502 [(''error'', JStr ''Notion update failed: {}'')])
   \<and> statusCode (bad 502 [(''error'', JStr ''Notion update failed: {}'')]) = 502
   \<and> fst (webhook_main demo_runtime paid_args
            (status_only_store [seat ''ana-1'' ana ''registered'']))
       = Inr (ok [(''updated'', JNum 1), (''email'', JStr ''ana@x.com'')])
   \<and> statusCode (ok [(''updated'', JNum 1), (''email'', JStr ''ana@x.com'')]) = 200"
  by code_simp

lemma settle_status: "statusCode (fst (settle bi m w)) = 200 \<or> statusCode (fst (settle bi m w)) = 502"
  by (simp add: settle_def case_prod_beta split: sum.splits)

lemma settle_stripe_status:
  "statusCode (fst (settle_stripe bi sd m w)) = 200
   \<or> statusCode (fst (settle_stripe bi sd m w)) = 502"
  by (auto simp add: settle_stripe_def stripe_report_def case_prod_beta
      split: sum.splits option.splits)

lemma updated_of_ok: "jfield ((''ok'', b) # (''updated'', n) # rest) ''updated'' = n"
  by (simp add: jfield_def)

lemma settle_agreement:
  assumes sp: "stripe_patch bi sd = Inr sp" and l: "stripe_link bi (sessionId sd) = Inr l"
    and a: "div100 bi (amountPaid sd) = Some a"
    and alike: "\<forall>i. (verdict w (Patch i sp) = Accepted) = (verdict w (Patch i paid_patch) = Accepted)"
  shows "statusCode (fst (settle bi m w)) = statusCode (fst (settle_stripe bi sd m w))
       \<and> (statusCode (fst (settle_stripe bi sd m w)) = 200 \<longrightarrow>
            map_option (\<lambda>b. jprop b ''updated'') (body (fst (settle bi m w)))
            = map_option (\<lambda>b. jprop b ''updated'') (body (fst (settle_stripe bi sd m w))))"
proof -
  let ?q = "Query (email_filter m)"
  let ?ms = "[p \<leftarrow> pages w. props p ''email'' = Some (EmailP m)]"
  show ?thesis
  proof (cases "verdict w ?q = Accepted
                \<and> (\<forall>p \<in> set ?ms. verdict w (Patch (pid p) paid_patch) = Accepted)")
    case True
    then have q: "verdict w ?q = Accepted"
      and acc: "\<forall>p \<in> set ?ms. verdict w (Patch (pid p) paid_patch) = Accepted"
      by simp_all
    from acc alike have acc': "\<forall>p \<in> set ?ms. verdict w (Patch (pid p) sp) = Accepted"
      by simp
    show ?thesis
      unfolding settle_accepted [OF q acc] settle_stripe_accepted [OF q sp l a acc'] Let_def
      by (simp add: ok_def updated_of_ok)
  next
    case False
    have one: "statusCode (fst (settle bi m w)) \<noteq> 200"
      using settle_succeeds [of bi m w] False by blast
    have two: "statusCode (fst (settle_stripe bi sd m w)) \<noteq> 200"
    proof
      assume "statusCode (fst (settle_stripe bi sd m w)) = 200"
      from settle_stripe_succeeds [OF this] have q: "verdict w ?q = Accepted"
        and r: "?ms = [] \<or> (\<exists>sp l a. stripe_patch bi sd = Inr sp
                \<and> stripe_link bi (sessionId sd) = Inr l
                \<and> div100 bi (amountPaid sd) = Some a
                \<and> (\<forall>p \<in> set ?ms. verdict w (Patch (pid p) sp) = Accepted))"
        by blast+
      have "\<forall>p \<in> set ?ms. verdict w (Patch (pid p) paid_patch) = Accepted"
      proof (cases "?ms = []")
        case True
        then show ?thesis by simp
      next
        case False
        with r obtain sp' where "stripe_patch bi sd = Inr sp'"
          and "\<forall>p \<in> set ?ms. verdict w (Patch (pid p) sp') = Accepted"
          by blast
        with sp have "\<forall>p \<in> set ?ms. verdict w (Patch (pid p) sp) = Accepted" by simp
        with alike show ?thesis by blast
      qed
      with q False show False by blast
    qed
    from one two settle_status [of bi m w] settle_stripe_status [of bi sd m w]
    show ?thesis by simp
  qed
qed

text \<open>
  Claim C10, amended. When the second processor returns a response, and the conversions
  that build its patch and its report do not throw, and the store accepts the patch with
  the Stripe properties for a page exactly when it accepts the patch of the status alone,
  the minimal processor returns a response with the same status code, and when that is
  200 the two responses carry the same \<open>updated\<close> count.
\<close>

theorem processors_agree_on_like_stores:
  assumes "fst (stripe_webhook_main bi args w) = Inr r1"
    and "\<forall>sd. stripe_data bi (session_of (parseEvent bi args)) = Inr sd \<longrightarrow>
           (\<exists>sp l a. stripe_patch bi sd = Inr sp \<and> stripe_link bi (sessionId sd) = Inr l
              \<and> div100 bi (amountPaid sd) = Some a
              \<and> (\<forall>i. (verdict w (Patch i sp) = Accepted)
                      = (verdict w (Patch i paid_patch) = Accepted)))"
  shows "\<exists>r2. fst (webhook_main bi args w) = Inr r2
            \<and> statusCode r2 = statusCode r1
            \<and> (statusCode r1 = 200 \<longrightarrow>
                  map_option (\<lambda>b. jprop b ''updated'') (body r2)
                  = map_option (\<lambda>b. jprop b ''updated'') (body r1))"
proof (cases "completed_event bi args (parseEvent bi args)")
  case False
  with assms(1) show ?thesis
    by (simp add: webhook_main_early stripe_webhook_main_early)
next
  case True
  note c = webhook_main_completed [OF True] and d = stripe_webhook_main_completed [OF True]
  let ?s = "session_of (parseEvent bi args)"
  show ?thesis
  proof (cases "email_of ?s")
    case (Inl e)
    with assms(1) show ?thesis by (simp add: d)
  next
    case (Inr m)
    show ?thesis
    proof (cases "truthy (paid_of ?s) \<and> truthy m")
      case False
      with assms(1) Inr show ?thesis by (auto simp add: c d)
    next
      case paid: True
      show ?thesis
      proof (cases "stripe_data bi ?s")
        case (Inl e)
        with assms(1) Inr paid show ?thesis by (simp add: d)
      next
        case sd: (Inr sd)
        with assms(2) obtain sp l a where "stripe_patch bi sd = Inr sp"
          "stripe_link bi (sessionId sd) = Inr l" "div100 bi (amountPaid sd) = Some a"
          "\<forall>i. (verdict w (Patch i sp) = Accepted) = (verdict w (Patch i paid_patch) = Accepted)"
          by blast
        note agree = settle_agreement [OF this, of m]
        have "r1 = fst (settle_stripe bi sd m w)"
          using assms(1) Inr paid sd by (simp add: d)
        moreover have "fst (webhook_main bi args w) = Inr (fst (settle bi m w))"
          using Inr paid by (simp add: c)
        ultimately show ?thesis using agree by simp
      qed
    qed
  qed
qed

theorem processors_agree_on_like_stores_witness:
  "fst (stripe_webhook_main demo_runtime paid_args ana_registered_store)
     = Inr (projr (fst (stripe_webhook_main demo_runtime paid_args ana_registered_store)))
   \<and> stripe_data demo_runtime (session_of (parseEvent demo_runtime paid_args)) = Inr paid_data
   \<and> statusCode (projr (fst (stripe_webhook_main demo_runtime paid_args ana_registered_store))) = 200
   \<and> statusCode (projr (fst (webhook_main demo_runtime paid_args ana_registered_store))) = 200"
proof -
  let ?r1 = "projr (fst (stripe_webhook_main demo_runtime paid_args ana_registered_store))"
  have f: "fst (stripe_webhook_main demo_runtime paid_args ana_registered_store) = Inr ?r1"
    by code_simp
  have sd: "stripe_data demo_runtime (session_of (parseEvent demo_runtime paid_args)) = Inr paid_data"
    by code_simp
  have v: "verdict ana_registered_store r = Accepted" for r
    by (simp add: ana_registered_store_def store_of_def)
  have h: "\<forall>sd. stripe_data demo_runtime (session_of (parseEvent demo_runtime paid_args)) = Inr sd \<longrightarrow>
           (\<exists>sp l a. stripe_patch demo_runtime sd = Inr sp
              \<and> stripe_link demo_runtime (sessionId sd) = Inr l
              \<and> div100 demo_runtime (amountPaid sd) = Some a
              \<and> (\<forall>i. (verdict ana_registered_store (Patch i sp) = Accepted)
                      = (verdict ana_registered_store (Patch i paid_patch) = Accepted)))"
    using paid_data_patch_eq paid_data_link paid_data_amount by (auto simp add: sd v)
  have s: "statusCode ?r1 = 200" by code_simp
  from processors_agree_on_like_stores [OF f h] obtain r2 where
    "fst (webhook_main demo_runtime paid_args ana_registered_store) = Inr r2"
    "statusCode r2 = statusCode ?r1" by blast
  then have "statusCode (projr (fst (webhook_main demo_runtime paid_args ana_registered_store))) = 200"
    using s by simp
  with f sd s show ?thesis by blast
qed

end
